theory Spec2Isabelle
  imports Main
begin

section \<open>JavaScript strings and values\<close>

text \<open>
  Strings are byte lists (the UTF-8 form of the JavaScript string). The operations used by
  \<^verbatim>\<open>login.ts\<close> on them are comparison with \<^verbatim>\<open>===\<close>, \<^verbatim>\<open>split\<close> on an ASCII
  separator, \<^verbatim>\<open>replace(/ /g, '+')\<close> and the URI component coders; all of them act alike
  on the UTF-8 form.
\<close>

text \<open>\<^verbatim>\<open>s.replace(/ /g, '+')\<close>\<close>

definition replaceSpaces :: "string \<Rightarrow> string" where
  "replaceSpaces s = map (\<lambda>c. if c = CHR '' '' then CHR ''+'' else c) s"

text \<open>\<^verbatim>\<open>s.split(sep)\<close> for a one-character separator: never empty, \<^verbatim>\<open>''.split(',')\<close> is \<^verbatim>\<open>['']\<close>.\<close>

fun split_str :: "char \<Rightarrow> string \<Rightarrow> string list" where
  "split_str sep [] = [[]]"
| "split_str sep (c # cs) =
     (if c = sep then [] # split_str sep cs
      else (case split_str sep cs of
              w # ws \<Rightarrow> (c # w) # ws
            | [] \<Rightarrow> [[c]]))"

text \<open>\<^verbatim>\<open>xs[i]\<close>: \<^verbatim>\<open>undefined\<close> (here \<open>None\<close>) out of range.\<close>

fun js_index :: "'a list \<Rightarrow> nat \<Rightarrow> 'a option" where
  "js_index [] i = None"
| "js_index (x # xs) 0 = Some x"
| "js_index (x # xs) (Suc i) = js_index xs i"

text \<open>\<^verbatim>\<open>a || b\<close> on strings: the empty string is falsy.\<close>

definition js_or :: "string \<Rightarrow> string \<Rightarrow> string" where
  "js_or a b = (if a \<noteq> [] then a else b)"

text \<open>\<^verbatim>\<open>v || ''\<close> for a value that is a string or \<^verbatim>\<open>undefined\<close>.\<close>

definition js_or_empty :: "string option \<Rightarrow> string" where
  "js_or_empty v = (case v of None \<Rightarrow> [] | Some s \<Rightarrow> s)"

text \<open>String coercion of a value that is a string or \<^verbatim>\<open>undefined\<close>.\<close>

definition js_toString :: "string option \<Rightarrow> string" where
  "js_toString v = (case v of None \<Rightarrow> ''undefined'' | Some s \<Rightarrow> s)"

text \<open>\<^verbatim>\<open>xs.join(sep)\<close>\<close>

fun js_join :: "string \<Rightarrow> string list \<Rightarrow> string" where
  "js_join sep [] = []"
| "js_join sep [x] = x"
| "js_join sep (x # y # ys) = x @ sep @ js_join sep (y # ys)"

text \<open>Decimal digits of a natural number, and the value of a string of digits.\<close>

definition digitChar :: "nat \<Rightarrow> char" where
  "digitChar d = ''0123456789'' ! d"

function showNat :: "nat \<Rightarrow> string" where
  "showNat n = (if n < 10 then [digitChar n] else showNat (n div 10) @ [digitChar (n mod 10)])"
  by pat_completeness auto
termination
  by (relation "measure id") auto

declare showNat.simps [simp del]

definition isDigit :: "char \<Rightarrow> bool" where
  "isDigit c = (48 \<le> (of_char c :: nat) \<and> (of_char c :: nat) \<le> 57)"

definition digitVal :: "char \<Rightarrow> nat" where
  "digitVal c = of_char c - 48"

definition decimalValue :: "string \<Rightarrow> nat" where
  "decimalValue ds = foldl (\<lambda>a c. 10 * a + digitVal c) 0 ds"

text \<open>
  Numbers are IEEE doubles. The ones met here are not negative and have no fraction:
  \<open>Finite v\<close> is the double whose value is the natural number \<open>v\<close>, \<open>Infinity\<close> the
  infinite one. \<open>toDouble n\<close> is the double nearest to \<open>n\<close>: every \<open>n\<close> below
  \<open>2 ^ 53\<close> is one; a larger \<open>n\<close> keeps 53 significant bits, a tie going to the even
  one, and becomes infinite from \<open>2 ^ 1024 - 2 ^ 970\<close> on.
\<close>

datatype jsNumber = Finite nat | Infinity

function bitLength :: "nat \<Rightarrow> nat" where
  "bitLength n = (if n = 0 then 0 else Suc (bitLength (n div 2)))"
  by pat_completeness auto
termination
  by (relation "measure id") auto

declare bitLength.simps [simp del]

definition toDouble :: "nat \<Rightarrow> jsNumber" where
  "toDouble n =
     (if n < 2 ^ 53 then Finite n
      else (let e = bitLength n - 53;
                q = n div 2 ^ e;
                r = n mod 2 ^ e;
                half = 2 ^ (e - 1);
                m = (if half < r \<or> (r = half \<and> odd q) then q + 1 else q)
            in if 2 ^ 1024 \<le> m * 2 ^ e then Infinity else Finite (m * 2 ^ e)))"

text \<open>\<^verbatim>\<open>parseInt(ds, 10)\<close> for a string of digits: the double nearest to its value.\<close>

definition parseInt10 :: "string \<Rightarrow> jsNumber" where
  "parseInt10 ds = toDouble (decimalValue ds)"

text \<open>
  \<^verbatim>\<open>`${x}`\<close> for a number, after Number::toString of ECMAScript: the fewest digits \<open>s\<close>
  and the exponent \<open>e\<close> with \<open>s * 10 ^ e\<close> rounding to the number (of two such \<open>s\<close>
  the one nearer to it), written with \<open>e\<close> zeros when that makes at most 21 digits
  and in exponent form otherwise. \<open>shortest x e\<close> looks for \<open>s\<close> from the exponent
  \<open>e\<close> downwards.
\<close>

fun shortest :: "nat \<Rightarrow> nat \<Rightarrow> nat \<times> nat" where
  "shortest x 0 = (x, 0)"
| "shortest x (Suc e) =
     (let lo = x div 10 ^ Suc e;
          hi = lo + 1;
          okLo = (0 < lo \<and> toDouble (lo * 10 ^ Suc e) = Finite x);
          okHi = (toDouble (hi * 10 ^ Suc e) = Finite x)
      in if okLo \<and> okHi then
           (if x - lo * 10 ^ Suc e < hi * 10 ^ Suc e - x
               \<or> (x - lo * 10 ^ Suc e = hi * 10 ^ Suc e - x \<and> even lo)
            then (lo, Suc e) else (hi, Suc e))
         else if okLo then (lo, Suc e)
         else if okHi then (hi, Suc e)
         else shortest x e)"

definition formatDigits :: "nat \<Rightarrow> nat \<Rightarrow> string" where
  "formatDigits s e =
     (let ds = showNat s; n = length ds + e
      in if n \<le> 21 then ds @ replicate e CHR ''0''
         else (case ds of
                 [] \<Rightarrow> []
               | [d] \<Rightarrow> [d]
               | d # ds' \<Rightarrow> d # CHR ''.'' # ds') @ ''e+'' @ showNat (n - 1))"

definition numberToString :: "jsNumber \<Rightarrow> string" where
  "numberToString x =
     (case x of
        Infinity \<Rightarrow> ''Infinity''
      | Finite v \<Rightarrow>
          (if v = 0 then ''0''
           else (case shortest v (length (showNat v)) of (s, e) \<Rightarrow> formatDigits s e)))"

text \<open>Error objects: the constructor and the message.\<close>

datatype jsError = Error string | TypeError string | URIError string

fun message :: "jsError \<Rightarrow> string" where
  "message (Error m) = m"
| "message (TypeError m) = m"
| "message (URIError m) = m"

section \<open>URI component coding\<close>

text \<open>
  \<^verbatim>\<open>encodeURIComponent\<close> and \<^verbatim>\<open>decodeURIComponent\<close> are built into the language; they are
  modelled after the ECMAScript algorithms Encode and Decode, on the UTF-8 form of a
  string. Encode keeps letters, digits and \<^verbatim>\<open>- _ . ! ~ * ' ( )\<close> and writes any other
  octet as \<^verbatim>\<open>%XX\<close> with upper-case digits.
\<close>

definition uriUnreserved :: "char \<Rightarrow> bool" where
  "uriUnreserved c =
     (let n = (of_char c :: nat) in
        (65 \<le> n \<and> n \<le> 90) \<or> (97 \<le> n \<and> n \<le> 122) \<or> (48 \<le> n \<and> n \<le> 57)
        \<or> c \<in> set ''-_.!~*()'' \<or> n = 39)"

definition hexDigit :: "nat \<Rightarrow> char" where
  "hexDigit d = ''0123456789ABCDEF'' ! d"

definition encodeOctet :: "char \<Rightarrow> string" where
  "encodeOctet c =
     (if uriUnreserved c then [c]
      else [CHR ''%'', hexDigit (of_char c div 16), hexDigit (of_char c mod 16)])"

definition encodeURIComponent :: "string \<Rightarrow> string" where
  "encodeURIComponent s = concat (map encodeOctet s)"

text \<open>The characters Encode can write.\<close>

definition uriEncodedChar :: "char \<Rightarrow> bool" where
  "uriEncodedChar x = (uriUnreserved x \<or> x \<in> set ''%0123456789ABCDEF'')"

text \<open>
  Decode reads a literal character or an escape \<^verbatim>\<open>%XX\<close>; an escape of an octet from
  \<open>0x80\<close> on starts a UTF-8 sequence whose further octets must be escapes too, and the
  sequence must be well formed. Anything else is a \<^verbatim>\<open>URIError\<close> (here \<open>None\<close>).
\<close>

definition hexVal :: "char \<Rightarrow> nat option" where
  "hexVal c =
     (let n = (of_char c :: nat) in
        if 48 \<le> n \<and> n \<le> 57 then Some (n - 48)
        else if 65 \<le> n \<and> n \<le> 70 then Some (n - 55)
        else if 97 \<le> n \<and> n \<le> 102 then Some (n - 87)
        else None)"

datatype uriToken = Lit char | Esc nat

fun uriTokens :: "string \<Rightarrow> uriToken list option" where
  "uriTokens [] = Some []"
| "uriTokens (c # cs) =
     (if c = CHR ''%'' then
        (case cs of
           h1 # h2 # rest \<Rightarrow>
             (case (hexVal h1, hexVal h2) of
                (Some a, Some b) \<Rightarrow> map_option ((#) (Esc (16 * a + b))) (uriTokens rest)
              | _ \<Rightarrow> None)
         | _ \<Rightarrow> None)
      else map_option ((#) (Lit c)) (uriTokens cs))"

text \<open>The number of octets a leading octet announces; 0 for an octet that cannot lead.\<close>

definition utf8Length :: "nat \<Rightarrow> nat" where
  "utf8Length b =
     (if b < 128 then 1
      else if 192 \<le> b \<and> b < 224 then 2
      else if 224 \<le> b \<and> b < 240 then 3
      else if 240 \<le> b \<and> b < 248 then 4
      else 0)"

definition utf8Cont :: "nat \<Rightarrow> bool" where
  "utf8Cont b = (128 \<le> b \<and> b \<le> 191)"

text \<open>Well-formed UTF-8 sequences of one code point (no overlong forms, no surrogates,
  nothing beyond U+10FFFF).\<close>

fun validUtf8 :: "nat list \<Rightarrow> bool" where
  "validUtf8 [a] = (a < 128)"
| "validUtf8 [a, b] = (194 \<le> a \<and> a \<le> 223 \<and> utf8Cont b)"
| "validUtf8 [a, b, c] =
     (((a = 224 \<and> 160 \<le> b \<and> b \<le> 191)
       \<or> (((225 \<le> a \<and> a \<le> 236) \<or> a = 238 \<or> a = 239) \<and> utf8Cont b)
       \<or> (a = 237 \<and> 128 \<le> b \<and> b \<le> 159))
      \<and> utf8Cont c)"
| "validUtf8 [a, b, c, d] =
     (((a = 240 \<and> 144 \<le> b \<and> b \<le> 191)
       \<or> (241 \<le> a \<and> a \<le> 243 \<and> utf8Cont b)
       \<or> (a = 244 \<and> 128 \<le> b \<and> b \<le> 143))
      \<and> utf8Cont c \<and> utf8Cont d)"
| "validUtf8 _ = False"

fun isEsc :: "uriToken \<Rightarrow> bool" where
  "isEsc (Esc b) = True"
| "isEsc (Lit c) = False"

fun tokenOctet :: "uriToken \<Rightarrow> nat" where
  "tokenOctet (Esc b) = b"
| "tokenOctet (Lit c) = of_char c"

function decodeTokens :: "uriToken list \<Rightarrow> string option" where
  "decodeTokens [] = Some []"
| "decodeTokens (Lit c # ts) = map_option ((#) c) (decodeTokens ts)"
| "decodeTokens (Esc b # ts) =
     (let n = utf8Length b; more = take (n - 1) ts; octets = b # map tokenOctet more in
        if n \<noteq> 0 \<and> length more = n - 1 \<and> list_all isEsc more \<and> validUtf8 octets
        then map_option ((@) (map char_of octets)) (decodeTokens (drop (n - 1) ts))
        else None)"
  by pat_completeness auto
termination
  by (relation "measure length") auto

definition decodeURIComponent :: "string \<Rightarrow> string option" where
  "decodeURIComponent s = (case uriTokens s of None \<Rightarrow> None | Some ts \<Rightarrow> decodeTokens ts)"

section \<open>Query access and the \<^verbatim>\<open>/callback\<close> check\<close>

text \<open>
  \<^verbatim>\<open>ParsedUrlQuery\<close>: a dictionary from parameter names to a string or, for a repeated
  parameter, an array of strings. \<^verbatim>\<open>url.Url.query\<close> is \<^verbatim>\<open>null\<close>, the raw query string or
  such a dictionary.
\<close>

datatype qvalue = QStr string | QArr "string list"

type_synonym ParsedUrlQuery = "string \<rightharpoonup> qvalue"

datatype urlQuery = QueryNull | QueryString string | QueryObject ParsedUrlQuery

text \<open>\<^verbatim>\<open>v.toString()\<close> of a query value: an array joins its elements with commas.\<close>

fun qvalue_toString :: "qvalue \<Rightarrow> string" where
  "qvalue_toString (QStr s) = s"
| "qvalue_toString (QArr xs) = js_join '','' xs"

definition getQueryProp :: "ParsedUrlQuery \<Rightarrow> string \<Rightarrow> string" where
  "getQueryProp query propName =
     (case query propName of Some (QStr v) \<Rightarrow> v | _ \<Rightarrow> [])"

text \<open>\<^verbatim>\<open>(state?.split(',')[1] || '').replace(/ /g, '+')\<close>\<close>

definition receivedNonceOfState :: "string \<Rightarrow> string" where
  "receivedNonceOfState state = replaceSpaces (js_or_empty (js_index (split_str CHR '','' state) 1))"

text \<open>
  \<^verbatim>\<open>callback(nonce, reqUrl)\<close>: \<open>Inr code\<close> when the promise fulfils, \<open>Inl err\<close> when it
  rejects. \<open>parse\<close> is \<^verbatim>\<open>querystring.parse\<close>, used only when the query is still a string.
\<close>

definition callback :: "(string \<Rightarrow> ParsedUrlQuery) \<Rightarrow> string \<Rightarrow> urlQuery \<Rightarrow> jsError + string" where
  "callback parse nonce reqQuery =
     (let parsed = (case reqQuery of
                      QueryNull \<Rightarrow> None
                    | QueryString s \<Rightarrow> (if s = [] then None else Some (parse s))
                    | QueryObject q \<Rightarrow> Some q);
          (error, code) =
            (case parsed of
               None \<Rightarrow> ([], [])
             | Some query \<Rightarrow>
                 (let error0 = js_or (getQueryProp query ''error_description'')
                                     (getQueryProp query ''error'');
                      code0 = getQueryProp query ''code''
                  in if error0 = [] then
                       (let state = getQueryProp query ''state'';
                            receivedNonce = receivedNonceOfState state
                        in if receivedNonce \<noteq> nonce then (''Nonce does not match.'', code0)
                           else (error0, code0))
                     else (error0, code0)))
      in if error = [] \<and> code \<noteq> [] then Inr code
         else Inl (Error (js_or error ''No code received.'')))"

section \<open>The URI-handler flow\<close>

text \<open>
  \<^verbatim>\<open>parseQuery(uri)\<close>: the raw query split at \<^verbatim>\<open>&\<close>, each part split at \<^verbatim>\<open>=\<close>, the first
  piece the key and the second piece the value (\<^verbatim>\<open>undefined\<close> without a \<^verbatim>\<open>=\<close>); a later
  part overwrites an earlier one. Nothing is percent-decoded. An assignment to the key
  \<^verbatim>\<open>__proto__\<close> of a string or of \<^verbatim>\<open>undefined\<close> leaves the object as it is.
\<close>

definition parseQuery :: "string \<Rightarrow> (string \<rightharpoonup> string)" where
  "parseQuery uriQuery =
     foldl (\<lambda>prev current.
              (let queryString = split_str CHR ''='' current
               in case queryString of
                    [] \<Rightarrow> prev
                  | k # _ \<Rightarrow>
                      if k = ''__proto__'' then prev else prev(k := js_index queryString 1)))
           Map.empty (split_str CHR ''&'' uriQuery)"

text \<open>
  The listener of \<^verbatim>\<open>exchangeCodeForToken\<close> on one URI event, for the expected \<open>state\<close>:
  \<open>Inl\<close> the error the promise rejects with, \<open>Inr code\<close> when the check passes and
  \<^verbatim>\<open>tokenWithAuthorizationCode\<close> is called with \<^verbatim>\<open>query.code\<close>.
\<close>

definition exchangeCodeForToken :: "string \<Rightarrow> string \<Rightarrow> jsError + string option" where
  "exchangeCodeForToken state uriQuery =
     (let query = parseQuery uriQuery;
          code = query ''code''
      in if query ''state'' \<noteq> Some state then
           (case decodeURIComponent (js_toString (query ''state'')) of
              None \<Rightarrow> Inl (URIError ''URI malformed'')
            | Some decoded \<Rightarrow>
                if decoded \<noteq> state then Inl (Error ''State does not match.'') else Inr code)
         else Inr code)"

section \<open>Promises and the request listener of \<^verbatim>\<open>createServer\<close>\<close>

text \<open>A promise settles once: \<^verbatim>\<open>resolve\<close> and \<^verbatim>\<open>reject\<close> act on a pending promise only.\<close>

datatype 'a promise = Pending | Fulfilled 'a | Rejected jsError

definition resolve :: "'a \<Rightarrow> 'a promise \<Rightarrow> 'a promise" where
  "resolve v p = (case p of Pending \<Rightarrow> Fulfilled v | _ \<Rightarrow> p)"

definition reject :: "jsError \<Rightarrow> 'a promise \<Rightarrow> 'a promise" where
  "reject e p = (case p of Pending \<Rightarrow> Rejected e | _ \<Rightarrow> p)"

text \<open>
  A request as the listener reads it: \<^verbatim>\<open>url.parse(req.url, true)\<close> gives the path name and
  the query dictionary, \<^verbatim>\<open>req.headers.host\<close> the host header. A response is a handle.
\<close>

datatype header = HeaderAbsent | HeaderStr string | HeaderArr "string list"

record request =
  req_pathname :: "string option"
  req_query :: ParsedUrlQuery
  req_host :: header

type_synonym response = nat

datatype redirectResult = RedirectReq request response | RedirectErr jsError response

datatype codeResult = CodeOk string response | CodeErr jsError response

record serverState =
  redirectPromise :: "redirectResult promise"
  codePromise :: "codeResult promise"

datatype action =
    OpenUri string
  | SetRedirectTimer nat
  | ClearRedirectTimer
  | WriteHead response nat "(string \<times> string) list"
  | End response
  | SendFile response string string
  | TokenWithAuthorizationCode string string string string
  | ScheduleServerClose nat

definition createServer :: serverState where
  "createServer = \<lparr> redirectPromise = Pending, codePromise = Pending \<rparr>"

text \<open>The code timer, five minutes after \<^verbatim>\<open>createServer\<close>.\<close>

definition codeTimer :: "serverState \<Rightarrow> serverState" where
  "codeTimer st = st\<lparr> codePromise := reject (Error ''Timeout waiting for code'') (codePromise st) \<rparr>"

text \<open>
  The listener on one request. \<open>Inl\<close> is an exception thrown out of the listener:
  \<^verbatim>\<open>reqUrl.query.nonce.toString()\<close> on a query without \<^verbatim>\<open>nonce\<close>.
\<close>

definition requestListener ::
    "(string \<Rightarrow> ParsedUrlQuery) \<Rightarrow> string \<Rightarrow> request \<Rightarrow> response \<Rightarrow> serverState
      \<Rightarrow> jsError + (serverState \<times> action list)" where
  "requestListener parse nonce req res st =
     (if req_pathname req = Some ''/signin'' then
        (case req_query req ''nonce'' of
           None \<Rightarrow> Inl (TypeError ''Cannot read properties of undefined (reading 'toString')'')
         | Some v \<Rightarrow>
             (let receivedNonce = replaceSpaces (js_or (qvalue_toString v) [])
              in if receivedNonce = nonce then
                   Inr (st\<lparr> redirectPromise := resolve (RedirectReq req res) (redirectPromise st) \<rparr>, [])
                 else
                   (let err = Error ''Nonce does not match.''
                    in Inr (st\<lparr> redirectPromise := resolve (RedirectErr err res) (redirectPromise st) \<rparr>, []))))
      else if req_pathname req = Some ''/'' then
        Inr (st, [SendFile res ''../codeFlowResult/index.html'' ''text/html; charset=utf-8''])
      else if req_pathname req = Some ''/main.css'' then
        Inr (st, [SendFile res ''../codeFlowResult/main.css'' ''text/css; charset=utf-8''])
      else if req_pathname req = Some ''/callback'' then
        Inr (st\<lparr> codePromise :=
                   resolve (case callback parse nonce (QueryObject (req_query req)) of
                              Inr code \<Rightarrow> CodeOk code res
                            | Inl err \<Rightarrow> CodeErr err res)
                           (codePromise st) \<rparr>, [])
      else Inr (st, [WriteHead res 404 [], End res]))"

section \<open>\<^verbatim>\<open>startServer\<close>\<close>

text \<open>
  The port promise is settled by the first of: the timer set for 5000 ms, a
  \<^verbatim>\<open>listening\<close> event whose address is an \<^verbatim>\<open>AddressInfo\<close>, an \<^verbatim>\<open>error\<close> event, a \<^verbatim>\<open>close\<close>
  event. Server events carry the time in ms since the timer was set; the timer runs
  before a server event of the same instant.
\<close>

datatype address = AddressNull | AddressString string | AddressInfo nat

datatype serverEvent = Listening address | ServerError jsError | ServerClose

datatype portEvent = PortTimer | FromServer serverEvent

definition portTimerDelay :: nat where
  "portTimerDelay = 5000"

definition portStep :: "nat promise \<Rightarrow> portEvent \<Rightarrow> nat promise" where
  "portStep p ev =
     (case ev of
        PortTimer \<Rightarrow> reject (Error ''Timeout waiting for port'') p
      | FromServer (Listening a) \<Rightarrow> (case a of AddressInfo port \<Rightarrow> resolve port p | _ \<Rightarrow> p)
      | FromServer (ServerError err) \<Rightarrow> reject err p
      | FromServer ServerClose \<Rightarrow> reject (Error ''Closed'') p)"

fun portTrace :: "(nat \<times> serverEvent) list \<Rightarrow> portEvent list" where
  "portTrace [] = [PortTimer]"
| "portTrace ((t, e) # es) =
     (if portTimerDelay \<le> t then PortTimer # FromServer e # map (FromServer \<circ> snd) es
      else FromServer e # portTrace es)"

definition startServer :: "(nat \<times> serverEvent) list \<Rightarrow> nat promise" where
  "startServer events = foldl portStep Pending (portTrace events)"

section \<open>\<^verbatim>\<open>createTerminateServer\<close>\<close>

text \<open>
  The socket table is kept in ascending order of its integer keys, the order in which
  \<^verbatim>\<open>for (const id in sockets)\<close> visits them. Every \<^verbatim>\<open>connection\<close> event adds a \<^verbatim>\<open>close\<close>
  listener to its socket; the listener keeps the id the socket was given, and
  \<open>closeListeners\<close> holds these ids with their sockets. A \<^verbatim>\<open>close\<close> event of a socket runs
  the listeners on that socket.
\<close>

type_synonym socket = nat

record registry =
  sockets :: "(nat \<times> socket) list"
  socketCount :: nat
  closeListeners :: "(nat \<times> socket) list"
  terminateResult :: "unit promise option"

datatype terminateAction = CloseServer | Destroy socket

datatype registryEvent = Connection socket | SocketClose socket | ServerCloseCallback

definition sockets_delete :: "nat \<Rightarrow> (nat \<times> socket) list \<Rightarrow> (nat \<times> socket) list" where
  "sockets_delete i xs = filter (\<lambda>kv. fst kv \<noteq> i) xs"

definition sockets_set :: "nat \<Rightarrow> socket \<Rightarrow> (nat \<times> socket) list \<Rightarrow> (nat \<times> socket) list" where
  "sockets_set i s xs = insort_key fst (i, s) (sockets_delete i xs)"

definition createTerminateServer :: registry where
  "createTerminateServer = \<lparr> sockets = [], socketCount = 0, closeListeners = [], terminateResult = None \<rparr>"

definition registryStep :: "registry \<Rightarrow> registryEvent \<Rightarrow> registry" where
  "registryStep r ev =
     (case ev of
        Connection s \<Rightarrow>
          (let i = socketCount r
           in r\<lparr> socketCount := socketCount r + 1,
                 sockets := sockets_set i s (sockets r),
                 closeListeners := closeListeners r @ [(i, s)] \<rparr>)
      | SocketClose s \<Rightarrow>
          r\<lparr> sockets := foldl (\<lambda>xs l. if snd l = s then sockets_delete (fst l) xs else xs)
                                (sockets r) (closeListeners r) \<rparr>
      | ServerCloseCallback \<Rightarrow>
          r\<lparr> terminateResult := map_option (resolve ()) (terminateResult r) \<rparr>)"

text \<open>The function \<^verbatim>\<open>createTerminateServer\<close> returns: close the server with the promise's
  \<^verbatim>\<open>resolve\<close> as callback, destroy every socket in the table, return the promise.\<close>

definition terminateServer :: "registry \<Rightarrow> registry \<times> terminateAction list" where
  "terminateServer r =
     (r\<lparr> terminateResult := Some Pending \<rparr>, CloseServer # map (Destroy \<circ> snd) (sockets r))"

section \<open>Authorization URLs and \<^verbatim>\<open>login\<close>\<close>

record environment =
  activeDirectoryEndpointUrl :: string
  activeDirectoryResourceId :: string

definition redirectUrlAAD :: string where
  "redirectUrlAAD = ''https://vscode-redirect.azurewebsites.net/''"

definition portADFS :: nat where
  "portADFS = 19472"

definition redirectUrlADFS :: string where
  "redirectUrlADFS = ''http://127.0.0.1:'' @ numberToString (toDouble portADFS) @ ''/callback''"

text \<open>The query \<^verbatim>\<open>loginWithoutLocalServer\<close> gives to the sign-in URI.\<close>

definition loginWithoutLocalServer_query :: "string \<Rightarrow> environment \<Rightarrow> string \<Rightarrow> string" where
  "loginWithoutLocalServer_query clientId environment state =
     ''response_type=code&client_id='' @ encodeURIComponent clientId
     @ ''&redirect_uri='' @ redirectUrlAAD
     @ ''&state='' @ state
     @ ''&resource='' @ activeDirectoryResourceId environment
     @ ''&prompt=select_account''"

text \<open>The sign-in URL of \<^verbatim>\<open>login\<close>: the part after \<^verbatim>\<open>oauth2/authorize?\<close>, and the whole.\<close>

definition login_query :: "string \<Rightarrow> environment \<Rightarrow> string \<Rightarrow> string \<Rightarrow> string" where
  "login_query clientId environment redirectUrl state =
     ''response_type=code&client_id='' @ encodeURIComponent clientId
     @ ''&redirect_uri='' @ encodeURIComponent redirectUrl
     @ ''&state='' @ state
     @ ''&resource='' @ encodeURIComponent (activeDirectoryResourceId environment)
     @ ''&prompt=select_account''"

definition login_signInUrl :: "string \<Rightarrow> environment \<Rightarrow> bool \<Rightarrow> string \<Rightarrow> string \<Rightarrow> string \<Rightarrow> string" where
  "login_signInUrl clientId environment adfs tenantId redirectUrl state =
     activeDirectoryEndpointUrl environment @ (if adfs then [] else tenantId @ ''/'')
     @ ''oauth2/authorize?'' @ login_query clientId environment redirectUrl state"

text \<open>\<^verbatim>\<open>/^[^:]+:(\d+)$/.exec(host)\<close>: the captured digits. The colon the pattern matches is
  the first one of the string, since the part before it has none.\<close>

definition matchHostPort :: "string \<Rightarrow> string option" where
  "matchHostPort host =
     (let name = takeWhile (\<lambda>c. c \<noteq> CHR '':'') host;
          rest = dropWhile (\<lambda>c. c \<noteq> CHR '':'') host
      in case rest of
           [] \<Rightarrow> None
         | _ # ds \<Rightarrow> if name \<noteq> [] \<and> ds \<noteq> [] \<and> list_all isDigit ds then Some ds else None)"

text \<open>\<^verbatim>\<open>req.headers.host || ''\<close>, then \<^verbatim>\<open>Array.isArray(host) ? host[0] : host\<close>, as the
  string the pattern is run on (\<^verbatim>\<open>undefined\<close> is coerced to its name).\<close>

definition hostString :: "header \<Rightarrow> string" where
  "hostString h =
     (case h of
        HeaderAbsent \<Rightarrow> []
      | HeaderStr s \<Rightarrow> s
      | HeaderArr xs \<Rightarrow> js_toString (js_index xs 0))"

text \<open>The bound port is a number too: the double of the natural number the server
  reports (that number itself, since a port is below \<open>2 ^ 16\<close>).\<close>

definition updatedPort :: "header \<Rightarrow> nat \<Rightarrow> jsNumber" where
  "updatedPort h port =
     (case matchHostPort (hostString h) of
        Some updatedPortStr \<Rightarrow> parseInt10 updatedPortStr
      | None \<Rightarrow> toDouble port)"

definition login_state :: "jsNumber \<Rightarrow> string \<Rightarrow> string" where
  "login_state port nonce = numberToString port @ '','' @ encodeURIComponent nonce"

definition errorLocation :: "jsError \<Rightarrow> string" where
  "errorLocation err = ''/?error='' @ encodeURIComponent (js_or (message err) ''Unknown error'')"

text \<open>
  \<^verbatim>\<open>login\<close> from \<^verbatim>\<open>startServer\<close> on, as a function of what each awaited promise settles
  with: the port, \<^verbatim>\<open>openUri\<close> (\<open>Some\<close> an error when it fails), the redirect promise, the
  code promise, the token exchange. It gives the effects in order, up to the first await
  on a promise that is still pending, and the outcome (\<open>None\<close> while such an await
  lasts). The \<^verbatim>\<open>finally\<close> block schedules the close of the server on every path that
  ends.
\<close>

definition login ::
    "string \<Rightarrow> environment \<Rightarrow> bool \<Rightarrow> string \<Rightarrow> string \<Rightarrow> nat promise \<Rightarrow> jsError option
      \<Rightarrow> redirectResult promise \<Rightarrow> codeResult promise \<Rightarrow> (jsError + 'tok)
      \<Rightarrow> action list \<times> (jsError + 'tok) option" where
  "login clientId environment adfs tenantId nonce portPromise openUriError redirectReq codeRes tokenRes =
     (case portPromise of
        Pending \<Rightarrow> ([], None)
      | Rejected err \<Rightarrow> ([ScheduleServerClose 5000], Some (Inl err))
      | Fulfilled port \<Rightarrow>
          (let opened = [OpenUri (''http://localhost:'' @ numberToString (toDouble port) @ ''/signin?nonce=''
                                  @ encodeURIComponent nonce)]
           in case openUriError of
                Some err \<Rightarrow> (opened @ [ScheduleServerClose 5000], Some (Inl err))
              | None \<Rightarrow>
                  (case redirectReq of
                     Pending \<Rightarrow> (opened @ [SetRedirectTimer 10000], None)
                   | Rejected err \<Rightarrow>
                       (opened @ [SetRedirectTimer 10000, ScheduleServerClose 5000], Some (Inl err))
                   | Fulfilled (RedirectErr err res) \<Rightarrow>
                       (opened @ [SetRedirectTimer 10000,
                                  WriteHead res 302 [(''Location'', errorLocation err)], End res,
                                  ScheduleServerClose 5000], Some (Inl err))
                   | Fulfilled (RedirectReq req res) \<Rightarrow>
                       (let port' = updatedPort (req_host req) port;
                            state = login_state port' nonce;
                            redirectUrl = (if adfs then redirectUrlADFS else redirectUrlAAD);
                            signInUrl = login_signInUrl clientId environment adfs tenantId redirectUrl state;
                            redirected = opened @ [SetRedirectTimer 10000, ClearRedirectTimer,
                                                   WriteHead res 302 [(''Location'', signInUrl)], End res]
                        in case codeRes of
                             Pending \<Rightarrow> (redirected, None)
                           | Rejected err \<Rightarrow> (redirected @ [ScheduleServerClose 5000], Some (Inl err))
                           | Fulfilled (CodeErr err res2) \<Rightarrow>
                               (redirected @ [WriteHead res2 302 [(''Location'', errorLocation err)],
                                              End res2, ScheduleServerClose 5000], Some (Inl err))
                           | Fulfilled (CodeOk code res2) \<Rightarrow>
                               (case tokenRes of
                                  Inr tokenResponse \<Rightarrow>
                                    (redirected @ [TokenWithAuthorizationCode clientId redirectUrl tenantId code,
                                                   WriteHead res2 302 [(''Location'', ''/'')], End res2,
                                                   ScheduleServerClose 5000], Some (Inr tokenResponse))
                                | Inl err \<Rightarrow>
                                    (redirected @ [TokenWithAuthorizationCode clientId redirectUrl tenantId code,
                                                   WriteHead res2 302 [(''Location'', errorLocation err)],
                                                   End res2, ScheduleServerClose 5000], Some (Inl err)))))))"

section \<open>Notions used to state the properties\<close>

text \<open>The token Decode reads back from what Encode writes for one octet.\<close>

definition octetToken :: "char \<Rightarrow> uriToken" where
  "octetToken c = (if uriUnreserved c then Lit c else Esc (of_char c))"

text \<open>The value a query string gives to a parameter: that of the first part
  \<^verbatim>\<open>name=value\<close> between the \<^verbatim>\<open>&\<close> signs.\<close>

definition queryParam :: "string \<Rightarrow> string \<Rightarrow> string option" where
  "queryParam name q =
     map_option (drop (length name + 1))
       (find (\<lambda>part. take (length name + 1) part = name @ ''='') (split_str CHR ''&'' q))"

text \<open>A server event that leaves the port promise as it is: a \<^verbatim>\<open>listening\<close> event whose
  address is not an \<^verbatim>\<open>AddressInfo\<close>.\<close>

fun portInert :: "serverEvent \<Rightarrow> bool" where
  "portInert (Listening a) = (case a of AddressInfo port \<Rightarrow> False | _ \<Rightarrow> True)"
| "portInert _ = False"

text \<open>The sockets that are open after a sequence of events: those that connected and
  have not closed since, in the order of their connection.\<close>

definition openStep :: "socket list \<Rightarrow> registryEvent \<Rightarrow> socket list" where
  "openStep xs ev =
     (case ev of
        Connection s \<Rightarrow> xs @ [s]
      | SocketClose s \<Rightarrow> filter (\<lambda>x. x \<noteq> s) xs
      | ServerCloseCallback \<Rightarrow> xs)"

definition openSockets :: "registryEvent list \<Rightarrow> socket list" where
  "openSockets evs = foldl openStep [] evs"

text \<open>What holds of the socket table after any sequence of events: every entry has its
  listener, the ids handed out are below the counter, and no id was handed out twice.\<close>

definition registryInv :: "registry \<Rightarrow> bool" where
  "registryInv r =
     (set (sockets r) \<subseteq> set (closeListeners r)
      \<and> (\<forall>l\<in>set (closeListeners r). fst l < socketCount r)
      \<and> distinct (map fst (closeListeners r)))"

section \<open>Facts about the string operations\<close>

lemma split_str_nonempty: "split_str sep s \<noteq> []"
  by (induction s) (auto split: list.splits)

lemma split_str_no_sep: "sep \<notin> set a \<Longrightarrow> split_str sep a = [a]"
  by (induction a) auto

lemma split_str_append: "sep \<notin> set a \<Longrightarrow> split_str sep (a @ sep # b) = a # split_str sep b"
  by (induction a) auto

lemma replaceSpaces_id: "CHR '' '' \<notin> set s \<Longrightarrow> replaceSpaces s = s"
  unfolding replaceSpaces_def by (induction s) auto

lemma hexDigit_encoded: "d < 16 \<Longrightarrow> uriEncodedChar (hexDigit d)"
proof -
  assume "d < 16"
  then have "hexDigit d \<in> set ''0123456789ABCDEF''"
    unfolding hexDigit_def by (intro nth_mem) simp
  then show ?thesis
    unfolding uriEncodedChar_def by (meson list.set_intros(2))
qed

lemma encodeOctet_chars: "x \<in> set (encodeOctet c) \<Longrightarrow> uriEncodedChar x"
proof (cases "uriUnreserved c")
  case True
  assume "x \<in> set (encodeOctet c)"
  with True show ?thesis by (simp add: encodeOctet_def uriEncodedChar_def)
next
  case False
  assume x: "x \<in> set (encodeOctet c)"
  have hi: "(of_char c :: nat) div 16 < 16"
    using nat_of_char_less_256 [of c] by (simp add: less_mult_imp_div_less)
  have lo: "(of_char c :: nat) mod 16 < 16" by simp
  have pc: "uriEncodedChar CHR ''%''" by (simp add: uriEncodedChar_def)
  from x False
  have "x = CHR ''%'' \<or> x = hexDigit (of_char c div 16) \<or> x = hexDigit (of_char c mod 16)"
    by (simp add: encodeOctet_def)
  with hexDigit_encoded [OF hi] hexDigit_encoded [OF lo] pc show ?thesis
    by blast
qed

lemma encodeURIComponent_chars: "x \<in> set (encodeURIComponent s) \<Longrightarrow> uriEncodedChar x"
  unfolding encodeURIComponent_def using encodeOctet_chars by auto

lemma uriEncodedChar_not_special:
  "uriEncodedChar x \<Longrightarrow>
     x \<noteq> CHR '','' \<and> x \<noteq> CHR ''&'' \<and> x \<noteq> CHR ''='' \<and> x \<noteq> CHR '' ''"
  by (auto simp: uriUnreserved_def uriEncodedChar_def)

lemma encodeURIComponent_no_special:
  "CHR '','' \<notin> set (encodeURIComponent s)" "CHR ''&'' \<notin> set (encodeURIComponent s)"
  "CHR ''='' \<notin> set (encodeURIComponent s)" "CHR '' '' \<notin> set (encodeURIComponent s)"
  using encodeURIComponent_chars uriEncodedChar_not_special by blast+

text \<open>Decode undoes Encode on ASCII strings.\<close>

lemma hexVal_hexDigit_all: "\<forall>d\<in>set [0..<16]. hexVal (hexDigit d) = Some d"
  by code_simp

lemma hexVal_hexDigit: "d < 16 \<Longrightarrow> hexVal (hexDigit d) = Some d"
  using hexVal_hexDigit_all by simp

lemma uriUnreserved_not_percent: "uriUnreserved c \<Longrightarrow> c \<noteq> CHR ''%''"
  by (auto simp: uriUnreserved_def)

lemma uriTokens_encodeOctet:
  "uriTokens (encodeOctet c @ r) = map_option ((#) (octetToken c)) (uriTokens r)"
proof (cases "uriUnreserved c")
  case True
  then show ?thesis
    using uriUnreserved_not_percent [OF True] by (simp add: encodeOctet_def octetToken_def)
next
  case False
  have hi: "(of_char c :: nat) div 16 < 16"
    using nat_of_char_less_256 [of c] by (simp add: less_mult_imp_div_less)
  have lo: "(of_char c :: nat) mod 16 < 16" by simp
  have "16 * ((of_char c :: nat) div 16) + of_char c mod 16 = of_char c" by simp
  with False show ?thesis
    by (simp add: encodeOctet_def octetToken_def hexVal_hexDigit [OF hi] hexVal_hexDigit [OF lo])
qed

lemma uriTokens_encode: "uriTokens (encodeURIComponent s) = Some (map octetToken s)"
  unfolding encodeURIComponent_def
  by (induction s) (simp_all add: uriTokens_encodeOctet)

lemma decodeTokens_ascii:
  "\<forall>c\<in>set s. (of_char c :: nat) < 128 \<Longrightarrow> decodeTokens (map octetToken s) = Some s"
  by (induction s) (simp_all add: octetToken_def utf8Length_def)

lemma decode_encode_ascii:
  "\<forall>c\<in>set s. (of_char c :: nat) < 128 \<Longrightarrow> decodeURIComponent (encodeURIComponent s) = Some s"
  by (simp add: decodeURIComponent_def uriTokens_encode decodeTokens_ascii)

section \<open>The request listener\<close>

lemma callback_QueryObject:
  "callback parse nonce (QueryObject q) =
     (if getQueryProp q ''error_description'' \<noteq> [] then Inl (Error (getQueryProp q ''error_description''))
      else if getQueryProp q ''error'' \<noteq> [] then Inl (Error (getQueryProp q ''error''))
      else if receivedNonceOfState (getQueryProp q ''state'') \<noteq> nonce then Inl (Error ''Nonce does not match.'')
      else if getQueryProp q ''code'' \<noteq> [] then Inr (getQueryProp q ''code'')
      else Inl (Error ''No code received.''))"
  by (simp add: callback_def Let_def js_or_def)

lemma requestListener_callback:
  "req_pathname req = Some ''/callback'' \<Longrightarrow>
     requestListener parse nonce req res st =
       Inr (st\<lparr> codePromise :=
                  resolve (case callback parse nonce (QueryObject (req_query req)) of
                             Inr code \<Rightarrow> CodeOk code res
                           | Inl err \<Rightarrow> CodeErr err res)
                          (codePromise st) \<rparr>, [])"
  by (simp add: requestListener_def)

lemma requestListener_signin:
  "req_pathname req = Some ''/signin'' \<Longrightarrow> req_query req ''nonce'' = Some v \<Longrightarrow>
     requestListener parse nonce req res st =
       Inr (st\<lparr> redirectPromise :=
                  resolve (if replaceSpaces (qvalue_toString v) = nonce then RedirectReq req res
                           else RedirectErr (Error ''Nonce does not match.'') res)
                          (redirectPromise st) \<rparr>, [])"
  by (simp add: requestListener_def Let_def js_or_def)

lemma receivedNonceOfState_second:
  "CHR '','' \<notin> set a \<Longrightarrow> CHR '','' \<notin> set b \<Longrightarrow>
     receivedNonceOfState (a @ CHR '','' # b) = replaceSpaces b"
  by (simp add: receivedNonceOfState_def split_str_append split_str_no_sep js_or_empty_def)

text \<open>
  Claim C3. A \<^verbatim>\<open>/signin\<close> request that carries a \<^verbatim>\<open>nonce\<close> value settles the pending
  redirect promise with exactly one value: the request and response when the value (the
  comma-joined values of a repeated parameter), with every space replaced by \<^verbatim>\<open>+\<close>,
  equals the session nonce, and otherwise the error \<^verbatim>\<open>Nonce does not match.\<close> together
  with the response. Nothing else changes and nothing is written.
\<close>

theorem signin_resolves_redirect:
  assumes "req_pathname req = Some ''/signin''"
      and "req_query req ''nonce'' = Some v"
      and "redirectPromise st = Pending"
  shows "requestListener parse nonce req res st =
           Inr (st\<lparr> redirectPromise :=
                      Fulfilled (if replaceSpaces (qvalue_toString v) = nonce then RedirectReq req res
                                 else RedirectErr (Error ''Nonce does not match.'') res) \<rparr>, [])"
  using assms by (simp add: requestListener_signin resolve_def)

theorem signin_resolves_redirect_witness:
  "requestListener (\<lambda>s. Map.empty) ''a+b=''
       \<lparr> req_pathname = Some ''/signin'', req_query = [''nonce'' \<mapsto> QStr ''a b=''], req_host = HeaderAbsent \<rparr>
       7 createServer
     = Inr (createServer\<lparr> redirectPromise := Fulfilled (RedirectReq
              \<lparr> req_pathname = Some ''/signin'', req_query = [''nonce'' \<mapsto> QStr ''a b=''], req_host = HeaderAbsent \<rparr> 7) \<rparr>, [])
   \<and> requestListener (\<lambda>s. Map.empty) ''a+b=''
       \<lparr> req_pathname = Some ''/signin'', req_query = [''nonce'' \<mapsto> QStr ''a+b''], req_host = HeaderAbsent \<rparr>
       7 createServer
     = Inr (createServer\<lparr> redirectPromise := Fulfilled (RedirectErr (Error ''Nonce does not match.'') 7) \<rparr>, [])"
  using signin_resolves_redirect [of "\<lparr> req_pathname = Some ''/signin'', req_query = [''nonce'' \<mapsto> QStr ''a b=''], req_host = HeaderAbsent \<rparr>"
          "QStr ''a b=''" createServer "\<lambda>s. Map.empty" "''a+b=''" 7]
        signin_resolves_redirect [of "\<lparr> req_pathname = Some ''/signin'', req_query = [''nonce'' \<mapsto> QStr ''a+b''], req_host = HeaderAbsent \<rparr>"
          "QStr ''a+b''" createServer "\<lambda>s. Map.empty" "''a+b=''" 7]
  by (simp add: createServer_def replaceSpaces_def)

text \<open>
  Claim C10. A \<^verbatim>\<open>/signin\<close> request whose query has no \<^verbatim>\<open>nonce\<close> parameter makes the
  listener throw a \<^verbatim>\<open>TypeError\<close>; the redirect promise is not resolved, whatever the
  state of the server.
\<close>

theorem signin_without_nonce_throws:
  assumes "req_pathname req = Some ''/signin''"
      and "req_query req ''nonce'' = None"
  shows "requestListener parse nonce req res st =
           Inl (TypeError ''Cannot read properties of undefined (reading 'toString')'')"
  using assms by (simp add: requestListener_def)

theorem signin_without_nonce_throws_witness:
  "requestListener (\<lambda>s. Map.empty) ''abc=''
       \<lparr> req_pathname = Some ''/signin'', req_query = Map.empty, req_host = HeaderAbsent \<rparr>
       3 createServer
     = Inl (TypeError ''Cannot read properties of undefined (reading 'toString')'')"
  using signin_without_nonce_throws [of "\<lparr> req_pathname = Some ''/signin'', req_query = Map.empty, req_host = HeaderAbsent \<rparr>"
          "\<lambda>s. Map.empty" "''abc=''" 3 createServer]
  by simp

section \<open>Provider errors and foreign nonces at \<^verbatim>\<open>/callback\<close>\<close>

text \<open>
  Claim C4 (as amended). A \<^verbatim>\<open>/callback\<close> request whose \<^verbatim>\<open>error_description\<close> or \<^verbatim>\<open>error\<close>
  parameter is a single non-empty string settles the pending code promise with a failure
  that carries that message: the description when it is such a string, the error
  otherwise. A \<^verbatim>\<open>code\<close> parameter changes nothing.
\<close>

theorem callback_reports_provider_error:
  assumes "req_pathname req = Some ''/callback''"
      and "codePromise st = Pending"
      and "getQueryProp (req_query req) ''error_description'' \<noteq> []
             \<or> getQueryProp (req_query req) ''error'' \<noteq> []"
  shows "requestListener parse nonce req res st =
           Inr (st\<lparr> codePromise := Fulfilled (CodeErr
                  (Error (if getQueryProp (req_query req) ''error_description'' \<noteq> []
                          then getQueryProp (req_query req) ''error_description''
                          else getQueryProp (req_query req) ''error'')) res) \<rparr>, [])"
  using assms by (auto simp add: requestListener_callback callback_QueryObject resolve_def)

theorem callback_reports_provider_error_witness:
  "requestListener (\<lambda>s. Map.empty) ''abc=''
       \<lparr> req_pathname = Some ''/callback'',
         req_query = [''error'' \<mapsto> QStr ''access_denied'', ''error_description'' \<mapsto> QStr ''User declined'',
                      ''code'' \<mapsto> QStr ''XYZ'', ''state'' \<mapsto> QStr ''51234,abc=''],
         req_host = HeaderAbsent \<rparr>
       4 createServer
     = Inr (createServer\<lparr> codePromise := Fulfilled (CodeErr (Error ''User declined'') 4) \<rparr>, [])
   \<and> requestListener (\<lambda>s. Map.empty) ''abc=''
       \<lparr> req_pathname = Some ''/callback'',
         req_query = [''error'' \<mapsto> QStr ''access_denied'', ''code'' \<mapsto> QStr ''XYZ''],
         req_host = HeaderAbsent \<rparr>
       4 createServer
     = Inr (createServer\<lparr> codePromise := Fulfilled (CodeErr (Error ''access_denied'') 4) \<rparr>, [])"
  using callback_reports_provider_error [of
          "\<lparr> req_pathname = Some ''/callback'',
             req_query = [''error'' \<mapsto> QStr ''access_denied'', ''error_description'' \<mapsto> QStr ''User declined'',
                          ''code'' \<mapsto> QStr ''XYZ'', ''state'' \<mapsto> QStr ''51234,abc=''],
             req_host = HeaderAbsent \<rparr>" createServer "\<lambda>s. Map.empty" "''abc=''" 4]
        callback_reports_provider_error [of
          "\<lparr> req_pathname = Some ''/callback'',
             req_query = [''error'' \<mapsto> QStr ''access_denied'', ''code'' \<mapsto> QStr ''XYZ''],
             req_host = HeaderAbsent \<rparr>" createServer "\<lambda>s. Map.empty" "''abc=''" 4]
  by (simp add: createServer_def getQueryProp_def)

text \<open>
  Claim C4 as first stated fails for an \<^verbatim>\<open>error\<close> parameter that is present and empty:
  \<^verbatim>\<open>/callback?error=&code=XYZ&state=51234,abc%3D\<close> settles the code promise with the code.
\<close>

theorem callback_empty_error_counterexample:
  "req_query \<lparr> req_pathname = Some ''/callback'',
         req_query = [''error'' \<mapsto> QStr '''', ''code'' \<mapsto> QStr ''XYZ'', ''state'' \<mapsto> QStr ''51234,abc=''],
         req_host = HeaderAbsent \<rparr> ''error'' = Some (QStr '''')
   \<and> requestListener (\<lambda>s. Map.empty) ''abc=''
       \<lparr> req_pathname = Some ''/callback'',
         req_query = [''error'' \<mapsto> QStr '''', ''code'' \<mapsto> QStr ''XYZ'', ''state'' \<mapsto> QStr ''51234,abc=''],
         req_host = HeaderAbsent \<rparr>
       4 createServer
     = Inr (createServer\<lparr> codePromise := Fulfilled (CodeOk ''XYZ'' 4) \<rparr>, [])"
  by (simp add: requestListener_callback callback_QueryObject resolve_def createServer_def
        getQueryProp_def receivedNonceOfState_def js_or_empty_def replaceSpaces_def)

text \<open>
  Claim C5. A \<^verbatim>\<open>/callback\<close> request with no (non-empty) \<^verbatim>\<open>error_description\<close> and
  \<^verbatim>\<open>error\<close>, whose \<^verbatim>\<open>state\<close> gives a received nonce (second comma-separated piece, spaces
  turned into \<^verbatim>\<open>+\<close>) other than the session nonce, settles the pending code promise with
  the error \<^verbatim>\<open>Nonce does not match.\<close>, whatever its \<^verbatim>\<open>code\<close> parameter.
\<close>

theorem callback_rejects_foreign_nonce:
  assumes "req_pathname req = Some ''/callback''"
      and "codePromise st = Pending"
      and "getQueryProp (req_query req) ''error_description'' = []"
      and "getQueryProp (req_query req) ''error'' = []"
      and "req_query req ''state'' = Some (QStr state)"
      and "receivedNonceOfState state \<noteq> nonce"
  shows "requestListener parse nonce req res st =
           Inr (st\<lparr> codePromise := Fulfilled (CodeErr (Error ''Nonce does not match.'') res) \<rparr>, [])"
proof -
  have "getQueryProp (req_query req) ''state'' = state"
    using assms(5) by (simp add: getQueryProp_def)
  with assms show ?thesis
    by (simp add: requestListener_callback callback_QueryObject resolve_def)
qed

theorem callback_rejects_foreign_nonce_witness:
  "receivedNonceOfState ''51234,zzz='' = ''zzz=''
   \<and> requestListener (\<lambda>s. Map.empty) ''abc=''
       \<lparr> req_pathname = Some ''/callback'',
         req_query = [''code'' \<mapsto> QStr ''XYZ'', ''state'' \<mapsto> QStr ''51234,zzz=''],
         req_host = HeaderAbsent \<rparr>
       4 createServer
     = Inr (createServer\<lparr> codePromise := Fulfilled (CodeErr (Error ''Nonce does not match.'') 4) \<rparr>, [])"
  using callback_rejects_foreign_nonce [of
          "\<lparr> req_pathname = Some ''/callback'',
             req_query = [''code'' \<mapsto> QStr ''XYZ'', ''state'' \<mapsto> QStr ''51234,zzz=''],
             req_host = HeaderAbsent \<rparr>" createServer "''51234,zzz=''" "''abc=''" "\<lambda>s. Map.empty" 4]
  by (simp add: createServer_def getQueryProp_def receivedNonceOfState_def js_or_empty_def replaceSpaces_def)

section \<open>Settled promises\<close>

lemma resolve_settled: "p \<noteq> Pending \<Longrightarrow> resolve v p = p"
  by (cases p) (simp_all add: resolve_def)

lemma reject_settled: "p \<noteq> Pending \<Longrightarrow> reject e p = p"
  by (cases p) (simp_all add: reject_def)

lemma resolve_not_Pending: "resolve v p \<noteq> Pending"
  by (cases p) (simp_all add: resolve_def)

lemma requestListener_promises:
  assumes "requestListener parse nonce req res st = Inr (st', acts)"
  shows "(\<exists>v. redirectPromise st' = resolve v (redirectPromise st)) \<or> redirectPromise st' = redirectPromise st"
    and "(\<exists>v. codePromise st' = resolve v (codePromise st)) \<or> codePromise st' = codePromise st"
  using assms
  by (auto simp add: requestListener_def Let_def split: if_splits option.splits)

text \<open>
  Claim C8. Resolving a promise that is already settled leaves it as it is. A request
  that reaches the listener after the redirect promise is settled leaves that promise
  unchanged, and so does a request, or the code timer, for a settled code promise.
\<close>

theorem settled_promise_unchanged:
  assumes "requestListener parse nonce req res st = Inr (st', acts)"
  shows "(redirectPromise st \<noteq> Pending \<longrightarrow> redirectPromise st' = redirectPromise st)
       \<and> (codePromise st \<noteq> Pending \<longrightarrow>
            codePromise st' = codePromise st \<and> codePromise (codeTimer st) = codePromise st)
       \<and> resolve w (resolve v p) = resolve v p"
  using requestListener_promises [OF assms]
  by (auto simp add: resolve_settled reject_settled resolve_not_Pending codeTimer_def)

theorem settled_promise_unchanged_witness:
  "requestListener (\<lambda>s. Map.empty) ''abc=''
       \<lparr> req_pathname = Some ''/signin'', req_query = [''nonce'' \<mapsto> QStr ''abc=''], req_host = HeaderAbsent \<rparr>
       9 \<lparr> redirectPromise = Fulfilled (RedirectErr (Error ''Nonce does not match.'') 1),
           codePromise = Fulfilled (CodeOk ''XYZ'' 2) \<rparr>
     = Inr (\<lparr> redirectPromise = Fulfilled (RedirectErr (Error ''Nonce does not match.'') 1),
              codePromise = Fulfilled (CodeOk ''XYZ'' 2) \<rparr>, [])
   \<and> codePromise (codeTimer \<lparr> redirectPromise = Fulfilled (RedirectErr (Error ''Nonce does not match.'') 1),
                              codePromise = Fulfilled (CodeOk ''XYZ'' 2) \<rparr>)
       = Fulfilled (CodeOk ''XYZ'' 2)"
  using settled_promise_unchanged [where parse = "\<lambda>s. Map.empty" and nonce = "''abc=''"
          and req = "\<lparr> req_pathname = Some ''/signin'', req_query = [''nonce'' \<mapsto> QStr ''abc=''], req_host = HeaderAbsent \<rparr>"
          and res = 9
          and st = "\<lparr> redirectPromise = Fulfilled (RedirectErr (Error ''Nonce does not match.'') 1),
                      codePromise = Fulfilled (CodeOk ''XYZ'' 2) \<rparr>"
          and st' = "\<lparr> redirectPromise = Fulfilled (RedirectErr (Error ''Nonce does not match.'') 1),
                      codePromise = Fulfilled (CodeOk ''XYZ'' 2) \<rparr>"
          and acts = "[]" and p = "Pending :: unit promise" and v = "()" and w = "()"]
  by (simp add: requestListener_signin resolve_def replaceSpaces_def)

section \<open>One more layer of percent-encoding\<close>

lemma parseQuery_code_state:
  assumes "CHR ''&'' \<notin> set c" "CHR ''='' \<notin> set c" "CHR ''&'' \<notin> set e" "CHR ''='' \<notin> set e"
  shows "parseQuery (''code='' @ c @ ''&state='' @ e) = [''code'' \<mapsto> c, ''state'' \<mapsto> e]"
proof -
  have amp1: "CHR ''&'' \<notin> set (''code='' @ c)" using assms(1) by simp
  have amp2: "CHR ''&'' \<notin> set (''state='' @ e)" using assms(3) by simp
  have "''code='' @ c @ ''&state='' @ e = (''code='' @ c) @ CHR ''&'' # (''state='' @ e)" by simp
  then have parts: "split_str CHR ''&'' (''code='' @ c @ ''&state='' @ e) = [''code='' @ c, ''state='' @ e]"
    by (simp only: split_str_append [OF amp1] split_str_no_sep [OF amp2])
  have k1: "split_str CHR ''='' (''code='' @ c) = [''code'', c]"
    using split_str_append [of "CHR ''=''" "''code''" c] split_str_no_sep [OF assms(2)] by simp
  have k2: "split_str CHR ''='' (''state='' @ e) = [''state'', e]"
    using split_str_append [of "CHR ''=''" "''state''" e] split_str_no_sep [OF assms(4)] by simp
  show ?thesis
    unfolding parseQuery_def parts by (simp add: k1 k2 Let_def del: split_str.simps append.simps)
qed

lemma exchangeCodeForToken_accepts:
  assumes "parseQuery uriQuery ''state'' = Some received"
      and "received = state \<or> decodeURIComponent received = Some state"
  shows "exchangeCodeForToken state uriQuery = Inr (parseQuery uriQuery ''code'')"
  using assms by (auto simp add: exchangeCodeForToken_def Let_def js_toString_def)

lemma callback_extra_layer:
  assumes "req_pathname req = Some ''/callback''"
      and "codePromise st = Pending"
      and "getQueryProp (req_query req) ''error_description'' = []"
      and "getQueryProp (req_query req) ''error'' = []"
      and "req_query req ''state'' = Some (QStr (port @ CHR '','' # encodeURIComponent nonce))"
      and "CHR '','' \<notin> set port"
      and "encodeURIComponent nonce \<noteq> nonce"
  shows "requestListener parse nonce req res st =
           Inr (st\<lparr> codePromise := Fulfilled (CodeErr (Error ''Nonce does not match.'') res) \<rparr>, [])"
proof -
  have st: "getQueryProp (req_query req) ''state'' = port @ CHR '','' # encodeURIComponent nonce"
    using assms(5) by (simp add: getQueryProp_def)
  have "receivedNonceOfState (port @ CHR '','' # encodeURIComponent nonce) = encodeURIComponent nonce"
    using assms(6) by (simp add: receivedNonceOfState_second encodeURIComponent_no_special replaceSpaces_id)
  with st assms show ?thesis
    by (simp add: requestListener_callback callback_QueryObject resolve_def)
qed

lemma enc_abc: "encodeURIComponent ''abc='' = ''abc%3D''"
  by code_simp

lemma enc_state: "encodeURIComponent ''443,abc%3D,'' = ''443%2Cabc%253D%2C''"
  by code_simp

lemma dec_state: "decodeURIComponent ''51234,abc%253D'' = Some ''51234,abc%3D''"
  by code_simp

text \<open>What the URI-handler check rejects; it leaves spaces as they are.\<close>

lemma exchangeCodeForToken_result:
  "exchangeCodeForToken state uriQuery =
     (if parseQuery uriQuery ''state'' = Some state then Inr (parseQuery uriQuery ''code'')
      else case decodeURIComponent (js_toString (parseQuery uriQuery ''state'')) of
             None \<Rightarrow> Inl (URIError ''URI malformed'')
           | Some decoded \<Rightarrow>
               if decoded = state then Inr (parseQuery uriQuery ''code'')
               else Inl (Error ''State does not match.''))"
  by (simp add: exchangeCodeForToken_def Let_def split: option.splits)

lemma exchangeCodeForToken_Inr_iff:
  "exchangeCodeForToken state uriQuery = Inr c \<longleftrightarrow>
     c = parseQuery uriQuery ''code''
     \<and> (parseQuery uriQuery ''state'' = Some state
         \<or> decodeURIComponent (js_toString (parseQuery uriQuery ''state'')) = Some state)"
  by (auto simp add: exchangeCodeForToken_result split: option.splits)

lemma uriTokens_literal:
  "uriTokens s = Some ts \<Longrightarrow> c \<in> set s \<Longrightarrow> c \<noteq> CHR ''%'' \<Longrightarrow> hexVal c = None \<Longrightarrow> Lit c \<in> set ts"
proof (induction "length s" arbitrary: s ts rule: less_induct)
  case less
  from less.prems(2) obtain x cs where s: "s = x # cs" by (cases s) auto
  show ?case
  proof (cases "x = CHR ''%''")
    case True
    with less.prems(1) s obtain h1 h2 rest a b ts' where cs: "cs = h1 # h2 # rest"
      and hv: "hexVal h1 = Some a" "hexVal h2 = Some b"
      and ts: "uriTokens rest = Some ts'" "ts = Esc (16 * a + b) # ts'"
      by (auto split: list.splits option.splits)
    from less.prems(2,3,4) True s cs hv have "c \<in> set rest" by auto
    moreover have "length rest < length s" by (simp add: s cs)
    ultimately have "Lit c \<in> set ts'"
      using less.hyps [OF _ ts(1)] less.prems(3,4) by simp
    then show ?thesis by (simp add: ts(2))
  next
    case False
    with less.prems(1) s obtain ts' where ts: "uriTokens cs = Some ts'" "ts = Lit x # ts'"
      by auto
    show ?thesis
    proof (cases "c = x")
      case True
      then show ?thesis by (simp add: ts(2))
    next
      case ne: False
      with less.prems(2) s have "c \<in> set cs" by simp
      moreover have "length cs < length s" by (simp add: s)
      ultimately have "Lit c \<in> set ts'"
        using less.hyps [OF _ ts(1)] less.prems(3,4) by simp
      then show ?thesis by (simp add: ts(2))
    qed
  qed
qed

lemma decodeTokens_literal:
  "decodeTokens ts = Some d \<Longrightarrow> Lit c \<in> set ts \<Longrightarrow> c \<in> set d"
proof (induction ts arbitrary: d rule: decodeTokens.induct)
  case 1
  then show ?case by simp
next
  case (2 x ts)
  then show ?case by auto
next
  case (3 b ts)
  define k where "k = utf8Length b - 1"
  from 3(2) obtain r where ok: "list_all isEsc (take k ts)"
    and r: "decodeTokens (drop k ts) = Some r"
    and d: "d = map char_of (b # map tokenOctet (take k ts)) @ r"
    by (auto simp add: Let_def k_def split: if_splits)
  from 3(3) have "Lit c \<in> set (take k ts) \<or> Lit c \<in> set (drop k ts)"
    by (metis Un_iff append_take_drop_id set_ConsD set_append uriToken.distinct(1))
  moreover have "Lit c \<notin> set (take k ts)"
    using ok by (auto simp add: list_all_iff)
  ultimately have inrest: "Lit c \<in> set (drop k ts)" by simp
  have cond: "utf8Length b \<noteq> 0 \<and> length (take (utf8Length b - 1) ts) = utf8Length b - 1
                \<and> list_all isEsc (take (utf8Length b - 1) ts)
                \<and> validUtf8 (b # map tokenOctet (take (utf8Length b - 1) ts))"
    using 3(2) by (auto simp add: Let_def split: if_splits)
  have "c \<in> set r"
    using 3(1) [OF refl refl refl cond, of r] r inrest by (simp add: k_def)
  then show ?case by (simp add: d)
qed

lemma decodeURIComponent_keeps_space:
  "decodeURIComponent r = Some d \<Longrightarrow> CHR '' '' \<in> set r \<Longrightarrow> CHR '' '' \<in> set d"
proof -
  assume dec: "decodeURIComponent r = Some d" and sp: "CHR '' '' \<in> set r"
  from dec obtain ts where ts: "uriTokens r = Some ts" "decodeTokens ts = Some d"
    by (auto simp add: decodeURIComponent_def split: option.splits)
  have "hexVal CHR '' '' = None" by (simp add: hexVal_def)
  then have "Lit CHR '' '' \<in> set ts"
    using uriTokens_literal [OF ts(1) sp] by simp
  then show ?thesis by (rule decodeTokens_literal [OF ts(2)])
qed

lemma replaceSpaces_no_space: "CHR '' '' \<notin> set (replaceSpaces s)"
  by (auto simp add: replaceSpaces_def)

lemma exchangeCodeForToken_space:
  assumes "parseQuery uriQuery ''state'' = Some received"
      and "CHR '' '' \<in> set received"
      and "replaceSpaces received = state"
  shows "exchangeCodeForToken state uriQuery =
           Inl (if decodeURIComponent received = None then URIError ''URI malformed''
                else Error ''State does not match.'')"
proof -
  have ne: "received \<noteq> state"
    using assms(2,3) replaceSpaces_no_space [of received] by auto
  have "decodeURIComponent received \<noteq> Some state"
    using decodeURIComponent_keeps_space [OF _ assms(2), of state] assms(3)
      replaceSpaces_no_space [of received] by auto
  with ne assms(1) show ?thesis
    by (auto simp add: exchangeCodeForToken_result js_toString_def split: option.splits)
qed

lemma dec_space: "decodeURIComponent ''a b'' = Some ''a b''"
  by code_simp

text \<open>
  Claim C1 (as amended). At \<^verbatim>\<open>/callback\<close> a nonce that still carries a layer of
  percent-encoding after the URL parser has decoded the query is not accepted: whenever
  encoding changes the session nonce, a state whose second piece is the encoded nonce
  settles the code promise with \<^verbatim>\<open>Nonce does not match.\<close>. The tolerance for one more
  layer is in the URI-handler flow: \<^verbatim>\<open>exchangeCodeForToken\<close> accepts a received state that
  is the expected state either as it comes or after one \<^verbatim>\<open>decodeURIComponent\<close>, so for an
  ASCII state it accepts the state encoded once more; it accepts in these cases only,
  with the \<^verbatim>\<open>code\<close> of the query. It remaps no spaces: a received state with a space
  that would be the expected state once its spaces were turned into \<^verbatim>\<open>+\<close> is rejected.
\<close>

theorem extra_layer_tolerance:
  "(req_pathname req = Some ''/callback'' \<and> codePromise st = Pending
      \<and> getQueryProp (req_query req) ''error_description'' = []
      \<and> getQueryProp (req_query req) ''error'' = []
      \<and> req_query req ''state'' = Some (QStr (port @ CHR '','' # encodeURIComponent nonce))
      \<and> CHR '','' \<notin> set port \<and> encodeURIComponent nonce \<noteq> nonce
    \<longrightarrow> requestListener parse nonce req res st =
          Inr (st\<lparr> codePromise := Fulfilled (CodeErr (Error ''Nonce does not match.'') res) \<rparr>, []))
   \<and> (parseQuery uriQuery ''state'' = Some received
        \<and> (received = state \<or> decodeURIComponent received = Some state)
    \<longrightarrow> exchangeCodeForToken state uriQuery = Inr (parseQuery uriQuery ''code''))
   \<and> ((\<forall>c\<in>set state. (of_char c :: nat) < 128) \<and> CHR ''&'' \<notin> set code \<and> CHR ''='' \<notin> set code
    \<longrightarrow> exchangeCodeForToken state (''code='' @ code @ ''&state='' @ encodeURIComponent state)
          = Inr (Some code))
   \<and> (exchangeCodeForToken state uriQuery = Inr c \<longleftrightarrow>
        c = parseQuery uriQuery ''code''
        \<and> (parseQuery uriQuery ''state'' = Some state
            \<or> decodeURIComponent (js_toString (parseQuery uriQuery ''state'')) = Some state))
   \<and> (parseQuery uriQuery ''state'' = Some received \<and> CHR '' '' \<in> set received
        \<and> replaceSpaces received = state
    \<longrightarrow> exchangeCodeForToken state uriQuery =
          Inl (if decodeURIComponent received = None then URIError ''URI malformed''
               else Error ''State does not match.''))"
proof (intro conjI impI)
  assume "req_pathname req = Some ''/callback'' \<and> codePromise st = Pending
      \<and> getQueryProp (req_query req) ''error_description'' = []
      \<and> getQueryProp (req_query req) ''error'' = []
      \<and> req_query req ''state'' = Some (QStr (port @ CHR '','' # encodeURIComponent nonce))
      \<and> CHR '','' \<notin> set port \<and> encodeURIComponent nonce \<noteq> nonce"
  then show "requestListener parse nonce req res st =
          Inr (st\<lparr> codePromise := Fulfilled (CodeErr (Error ''Nonce does not match.'') res) \<rparr>, [])"
    using callback_extra_layer by blast
next
  assume "parseQuery uriQuery ''state'' = Some received
        \<and> (received = state \<or> decodeURIComponent received = Some state)"
  then show "exchangeCodeForToken state uriQuery = Inr (parseQuery uriQuery ''code'')"
    using exchangeCodeForToken_accepts by blast
next
  assume a: "(\<forall>c\<in>set state. (of_char c :: nat) < 128) \<and> CHR ''&'' \<notin> set code \<and> CHR ''='' \<notin> set code"
  then have pq: "parseQuery (''code='' @ code @ ''&state='' @ encodeURIComponent state)
                   = [''code'' \<mapsto> code, ''state'' \<mapsto> encodeURIComponent state]"
    by (intro parseQuery_code_state) (simp_all add: encodeURIComponent_no_special)
  have "decodeURIComponent (encodeURIComponent state) = Some state"
    using a by (simp add: decode_encode_ascii)
  then have "exchangeCodeForToken state (''code='' @ code @ ''&state='' @ encodeURIComponent state)
               = Inr (parseQuery (''code='' @ code @ ''&state='' @ encodeURIComponent state) ''code'')"
    by (intro exchangeCodeForToken_accepts [where received = "encodeURIComponent state"])
       (simp_all only: pq, simp_all)
  then show "exchangeCodeForToken state (''code='' @ code @ ''&state='' @ encodeURIComponent state)
          = Inr (Some code)"
    by (simp only: pq, simp)
next
  show "exchangeCodeForToken state uriQuery = Inr c \<longleftrightarrow>
        c = parseQuery uriQuery ''code''
        \<and> (parseQuery uriQuery ''state'' = Some state
            \<or> decodeURIComponent (js_toString (parseQuery uriQuery ''state'')) = Some state)"
    by (rule exchangeCodeForToken_Inr_iff)
next
  assume "parseQuery uriQuery ''state'' = Some received \<and> CHR '' '' \<in> set received
        \<and> replaceSpaces received = state"
  then show "exchangeCodeForToken state uriQuery =
          Inl (if decodeURIComponent received = None then URIError ''URI malformed''
               else Error ''State does not match.'')"
    using exchangeCodeForToken_space by blast
qed

theorem extra_layer_tolerance_witness:
  "requestListener (\<lambda>s. Map.empty) ''abc=''
       \<lparr> req_pathname = Some ''/callback'',
         req_query = [''code'' \<mapsto> QStr ''XYZ'', ''state'' \<mapsto> QStr ''51234,abc%3D''],
         req_host = HeaderAbsent \<rparr>
       4 createServer
     = Inr (createServer\<lparr> codePromise := Fulfilled (CodeErr (Error ''Nonce does not match.'') 4) \<rparr>, [])
   \<and> exchangeCodeForToken ''443,abc%3D,'' ''code=XYZ&state=443,abc%253D,'' = Inr (Some ''XYZ'')
   \<and> exchangeCodeForToken ''443,abc%3D,'' ''code=XYZ&state=443%2Cabc%253D%2C'' = Inr (Some ''XYZ'')
   \<and> exchangeCodeForToken ''a+b'' ''code=XYZ&state=a b'' = Inl (Error ''State does not match.'')
   \<and> (\<forall>c. exchangeCodeForToken ''a+b'' ''code=XYZ&state=a b'' \<noteq> Inr c)"
proof -
  have pq: "parseQuery ''code=XYZ&state=443,abc%253D,'' = [''code'' \<mapsto> ''XYZ'', ''state'' \<mapsto> ''443,abc%253D,'']"
    using parseQuery_code_state [of "''XYZ''" "''443,abc%253D,''"] by simp
  have pq2: "parseQuery ''code=XYZ&state=a b'' = [''code'' \<mapsto> ''XYZ'', ''state'' \<mapsto> ''a b'']"
    using parseQuery_code_state [of "''XYZ''" "''a b''"] by simp
  have dec: "decodeURIComponent ''443,abc%253D,'' = Some ''443,abc%3D,''"
    by code_simp
  note t = extra_layer_tolerance [where req = "\<lparr> req_pathname = Some ''/callback'',
         req_query = [''code'' \<mapsto> QStr ''XYZ'', ''state'' \<mapsto> QStr ''51234,abc%3D''],
         req_host = HeaderAbsent \<rparr>" and st = createServer and port = "''51234''" and nonce = "''abc=''"
         and parse = "\<lambda>s. Map.empty" and res = 4
         and uriQuery = "''code=XYZ&state=443,abc%253D,''" and received = "''443,abc%253D,''"
         and state = "''443,abc%3D,''" and code = "''XYZ''"]
  note u = extra_layer_tolerance [where uriQuery = "''code=XYZ&state=a b''" and received = "''a b''"
         and state = "''a+b''"]
  have c1: "requestListener (\<lambda>s. Map.empty) ''abc=''
       \<lparr> req_pathname = Some ''/callback'',
         req_query = [''code'' \<mapsto> QStr ''XYZ'', ''state'' \<mapsto> QStr ''51234,abc%3D''],
         req_host = HeaderAbsent \<rparr>
       4 createServer
     = Inr (createServer\<lparr> codePromise := Fulfilled (CodeErr (Error ''Nonce does not match.'') 4) \<rparr>, [])"
    using t [THEN conjunct1] by (simp add: enc_abc createServer_def getQueryProp_def)
  have c2: "exchangeCodeForToken ''443,abc%3D,'' ''code=XYZ&state=443,abc%253D,'' = Inr (Some ''XYZ'')"
    using t [THEN conjunct2, THEN conjunct1] by (simp add: pq dec)
  have c3: "exchangeCodeForToken ''443,abc%3D,'' ''code=XYZ&state=443%2Cabc%253D%2C'' = Inr (Some ''XYZ'')"
    using t [THEN conjunct2, THEN conjunct2, THEN conjunct1] by (simp add: enc_state)
  have c4: "exchangeCodeForToken ''a+b'' ''code=XYZ&state=a b'' = Inl (Error ''State does not match.'')"
    using u [THEN conjunct2, THEN conjunct2, THEN conjunct2, THEN conjunct2]
    by (simp add: pq2 dec_space replaceSpaces_def)
  have c5: "\<forall>c. exchangeCodeForToken ''a+b'' ''code=XYZ&state=a b'' \<noteq> Inr c"
    using c4 by simp
  from c1 c2 c3 c4 c5 show ?thesis by (intro conjI)
qed

text \<open>
  Claim C1 as first stated fails at session nonce \<^verbatim>\<open>abc=\<close> and state \<^verbatim>\<open>51234,abc%253D\<close>:
  the parser's decoding leaves \<^verbatim>\<open>51234,abc%3D\<close>, and the listener rejects it, as it
  rejects the state taken undecoded.
\<close>

theorem extra_layer_counterexample:
  "decodeURIComponent ''51234,abc%253D'' = Some ''51234,abc%3D''
   \<and> requestListener (\<lambda>s. Map.empty) ''abc=''
       \<lparr> req_pathname = Some ''/callback'',
         req_query = [''code'' \<mapsto> QStr ''XYZ'', ''state'' \<mapsto> QStr ''51234,abc%3D''],
         req_host = HeaderAbsent \<rparr>
       4 createServer
     = Inr (createServer\<lparr> codePromise := Fulfilled (CodeErr (Error ''Nonce does not match.'') 4) \<rparr>, [])
   \<and> requestListener (\<lambda>s. Map.empty) ''abc=''
       \<lparr> req_pathname = Some ''/callback'',
         req_query = [''code'' \<mapsto> QStr ''XYZ'', ''state'' \<mapsto> QStr ''51234,abc%253D''],
         req_host = HeaderAbsent \<rparr>
       4 createServer
     = Inr (createServer\<lparr> codePromise := Fulfilled (CodeErr (Error ''Nonce does not match.'') 4) \<rparr>, [])"
  by (simp add: requestListener_callback callback_QueryObject resolve_def createServer_def
        getQueryProp_def receivedNonceOfState_def js_or_empty_def replaceSpaces_def dec_state)

section \<open>The \<^verbatim>\<open>redirect_uri\<close> parameter\<close>

lemma queryParam_third:
  assumes "CHR ''&'' \<notin> set p1" "CHR ''&'' \<notin> set p2" "CHR ''&'' \<notin> set name" "CHR ''&'' \<notin> set v"
      and "take (length name + 1) p1 \<noteq> name @ ''=''"
      and "take (length name + 1) p2 \<noteq> name @ ''=''"
  shows "queryParam name (p1 @ CHR ''&'' # p2 @ CHR ''&'' # (name @ ''='' @ v) @ CHR ''&'' # rest) = Some v"
proof -
  have nv: "CHR ''&'' \<notin> set (name @ ''='' @ v)"
    using assms(3,4) by simp
  have "split_str CHR ''&'' (p1 @ CHR ''&'' # p2 @ CHR ''&'' # (name @ ''='' @ v) @ CHR ''&'' # rest)
          = p1 # p2 # (name @ ''='' @ v) # split_str CHR ''&'' rest"
    by (simp only: split_str_append [OF assms(1)] split_str_append [OF assms(2)] split_str_append [OF nv])
  then show ?thesis
    using assms(5,6) by (simp add: queryParam_def)
qed

lemma loginWithoutLocalServer_query_parts:
  "loginWithoutLocalServer_query clientId environment state =
     ''response_type=code'' @ CHR ''&'' # (''client_id='' @ encodeURIComponent clientId) @ CHR ''&''
       # (''redirect_uri'' @ ''='' @ redirectUrlAAD) @ CHR ''&''
       # (''state='' @ state @ ''&resource='' @ activeDirectoryResourceId environment @ ''&prompt=select_account'')"
  by (simp add: loginWithoutLocalServer_query_def)

lemma login_query_parts:
  "login_query clientId environment redirectUrl state =
     ''response_type=code'' @ CHR ''&'' # (''client_id='' @ encodeURIComponent clientId) @ CHR ''&''
       # (''redirect_uri'' @ ''='' @ encodeURIComponent redirectUrl) @ CHR ''&''
       # (''state='' @ state @ ''&resource='' @ encodeURIComponent (activeDirectoryResourceId environment) @ ''&prompt=select_account'')"
  by (simp add: login_query_def)

lemma redirectUrlAAD_no_amp: "CHR ''&'' \<notin> set redirectUrlAAD"
  by (simp add: redirectUrlAAD_def)

text \<open>
  Claim C2 (as amended). The query of the no-local-server flow carries the redirect URL
  as it is; the sign-in URL of the local-server flow carries it URL-encoded.
\<close>

theorem redirect_uri_coding:
  "queryParam ''redirect_uri'' (loginWithoutLocalServer_query clientId environment state) = Some redirectUrlAAD
   \<and> queryParam ''redirect_uri'' (login_query clientId environment redirectUrl state')
       = Some (encodeURIComponent redirectUrl)"
proof
  show "queryParam ''redirect_uri'' (loginWithoutLocalServer_query clientId environment state) = Some redirectUrlAAD"
    unfolding loginWithoutLocalServer_query_parts
    by (rule queryParam_third) (simp_all add: encodeURIComponent_no_special redirectUrlAAD_no_amp)
  show "queryParam ''redirect_uri'' (login_query clientId environment redirectUrl state')
          = Some (encodeURIComponent redirectUrl)"
    unfolding login_query_parts
    by (rule queryParam_third) (simp_all add: encodeURIComponent_no_special)
qed

text \<open>
  Claim C2 as first stated has the two flows the wrong way round: the no-local-server
  query holds the raw redirect URL, the local-server query its encoding.
\<close>

theorem redirect_uri_coding_counterexample:
  "queryParam ''redirect_uri''
       (loginWithoutLocalServer_query ''client'' \<lparr> activeDirectoryEndpointUrl = ''https://login.example/'',
                                                  activeDirectoryResourceId = ''https://res.example/'' \<rparr> ''443,abc%3D,'')
     = Some ''https://vscode-redirect.azurewebsites.net/''
   \<and> encodeURIComponent ''https://vscode-redirect.azurewebsites.net/''
       = ''https%3A%2F%2Fvscode-redirect.azurewebsites.net%2F''
   \<and> queryParam ''redirect_uri''
       (login_query ''client'' \<lparr> activeDirectoryEndpointUrl = ''https://login.example/'',
                                 activeDirectoryResourceId = ''https://res.example/'' \<rparr>
                    redirectUrlAAD ''51234,abc%3D'')
     = Some ''https%3A%2F%2Fvscode-redirect.azurewebsites.net%2F''
   \<and> queryParam ''redirect_uri''
       (loginWithoutLocalServer_query ''client'' \<lparr> activeDirectoryEndpointUrl = ''https://login.example/'',
                                                  activeDirectoryResourceId = ''https://res.example/'' \<rparr> ''443,abc%3D,'')
     \<noteq> Some (encodeURIComponent redirectUrlAAD)
   \<and> queryParam ''redirect_uri''
       (login_query ''client'' \<lparr> activeDirectoryEndpointUrl = ''https://login.example/'',
                                 activeDirectoryResourceId = ''https://res.example/'' \<rparr>
                    redirectUrlAAD ''51234,abc%3D'')
     \<noteq> Some redirectUrlAAD"
  by code_simp

section \<open>Failures of \<^verbatim>\<open>startServer\<close>\<close>

lemma portStep_settled: "p \<noteq> Pending \<Longrightarrow> portStep p ev = p"
  by (cases p) (auto simp add: portStep_def resolve_def reject_def
       split: portEvent.splits serverEvent.splits address.splits)

lemma foldl_portStep_settled: "p \<noteq> Pending \<Longrightarrow> foldl portStep p evs = p"
  by (induction evs) (simp_all add: portStep_settled)

lemma portStep_inert: "portInert e \<Longrightarrow> portStep Pending (FromServer e) = Pending"
  by (cases e) (auto simp add: portStep_def split: address.splits)

lemma startServer_skip:
  assumes "\<forall>x\<in>set pre. fst x < portTimerDelay \<and> portInert (snd x)"
  shows "startServer (pre @ rest) = startServer rest"
  using assms unfolding startServer_def
  by (induction pre) (auto simp add: portStep_inert)

lemma startServer_first:
  "startServer ((t, e) # post) =
     (if portTimerDelay \<le> t then Rejected (Error ''Timeout waiting for port'')
      else case e of
             Listening a \<Rightarrow> (case a of AddressInfo port \<Rightarrow> Fulfilled port | _ \<Rightarrow> startServer post)
           | ServerError err \<Rightarrow> Rejected err
           | ServerClose \<Rightarrow> Rejected (Error ''Closed''))"
  unfolding startServer_def
  by (auto simp add: portStep_def resolve_def reject_def foldl_portStep_settled
        split: serverEvent.splits address.splits)

lemma startServer_none: "startServer [] = Rejected (Error ''Timeout waiting for port'')"
  by (simp add: startServer_def portStep_def reject_def)

text \<open>
  Claim C6. Let the server first give only \<^verbatim>\<open>listening\<close> events without a port, all before
  the 5000 ms of the timer. If the next event, still before 5000 ms, is an \<^verbatim>\<open>error\<close>, the
  port promise rejects with that error; if it comes at 5000 ms or later, or never, the
  promise rejects with \<^verbatim>\<open>Timeout waiting for port\<close>; if it is a \<^verbatim>\<open>close\<close> before 5000 ms,
  the promise rejects with \<^verbatim>\<open>Closed\<close>. On a rejected port promise \<^verbatim>\<open>login\<close> fails with the
  same error and does nothing but schedule the close of the server: no URI is opened, no
  timer set, no response written.
\<close>

theorem startServer_failure:
  fixes tokenRes :: "jsError + 'tok"
  assumes "\<forall>x\<in>set pre. fst x < portTimerDelay \<and> portInert (snd x)"
  shows "(t < portTimerDelay \<longrightarrow> startServer (pre @ (t, ServerError err) # post) = Rejected err)
       \<and> (portTimerDelay \<le> t \<longrightarrow>
            startServer (pre @ (t, e) # post) = Rejected (Error ''Timeout waiting for port''))
       \<and> startServer pre = Rejected (Error ''Timeout waiting for port'')
       \<and> (t < portTimerDelay \<longrightarrow>
            startServer (pre @ (t, ServerClose) # post) = Rejected (Error ''Closed''))
       \<and> login clientId environment adfs tenantId nonce (Rejected err) openUriError redirectReq codeRes tokenRes
            = ([ScheduleServerClose 5000], Some (Inl err))"
proof -
  have "startServer pre = startServer (pre @ [])" by simp
  also have "\<dots> = startServer []" by (rule startServer_skip [OF assms])
  finally have "startServer pre = Rejected (Error ''Timeout waiting for port'')"
    by (simp add: startServer_none)
  then show ?thesis
    by (simp add: startServer_skip [OF assms] startServer_first login_def)
qed

theorem startServer_failure_witness:
  "startServer [(3, Listening AddressNull), (40, ServerError (Error ''listen EADDRINUSE''))]
     = Rejected (Error ''listen EADDRINUSE'')
   \<and> startServer [(3, Listening AddressNull), (5000, Listening (AddressInfo 19472))]
     = Rejected (Error ''Timeout waiting for port'')
   \<and> startServer [(3, Listening AddressNull)] = Rejected (Error ''Timeout waiting for port'')
   \<and> startServer [(3, Listening AddressNull), (40, ServerClose)] = Rejected (Error ''Closed'')
   \<and> login ''client'' \<lparr> activeDirectoryEndpointUrl = ''https://login.example/'',
                        activeDirectoryResourceId = ''https://res.example/'' \<rparr> True ''common'' ''abc=''
        (Rejected (Error ''listen EADDRINUSE'')) None Pending Pending (Inl (Error ''unused'') :: jsError + unit)
       = ([ScheduleServerClose 5000], Some (Inl (Error ''listen EADDRINUSE'')))"
  using startServer_failure [where pre = "[(3, Listening AddressNull)]" and t = 40
          and err = "Error ''listen EADDRINUSE''" and post = "[]" and clientId = "''client''"
          and environment = "\<lparr> activeDirectoryEndpointUrl = ''https://login.example/'',
                        activeDirectoryResourceId = ''https://res.example/'' \<rparr>"
          and adfs = True and tenantId = "''common''" and nonce = "''abc=''" and openUriError = None
          and redirectReq = Pending and codeRes = Pending
          and tokenRes = "Inl (Error ''unused'') :: jsError + unit"]
        startServer_failure [where pre = "[(3, Listening AddressNull)]" and t = 5000
          and e = "Listening (AddressInfo 19472)"
          and err = "Error ''listen EADDRINUSE''" and post = "[]" and clientId = "''client''"
          and environment = "\<lparr> activeDirectoryEndpointUrl = ''https://login.example/'',
                        activeDirectoryResourceId = ''https://res.example/'' \<rparr>"
          and adfs = True and tenantId = "''common''" and nonce = "''abc=''" and openUriError = None
          and redirectReq = Pending and codeRes = Pending
          and tokenRes = "Inl (Error ''unused'') :: jsError + unit"]
  by (simp add: portTimerDelay_def)

section \<open>The socket table of \<^verbatim>\<open>createTerminateServer\<close>\<close>

lemma insort_key_last: "\<forall>x\<in>set xs. fst x < i \<Longrightarrow> insort_key fst (i, s) xs = xs @ [(i, s)]"
  by (induction xs) auto

lemma sockets_delete_fresh: "\<forall>x\<in>set xs. fst x < i \<Longrightarrow> sockets_delete i xs = xs"
  unfolding sockets_delete_def by (induction xs) auto

lemma sockets_set_fresh: "\<forall>x\<in>set xs. fst x < i \<Longrightarrow> sockets_set i s xs = xs @ [(i, s)]"
  by (simp add: sockets_set_def sockets_delete_fresh insort_key_last)

lemma close_listeners_filter:
  "foldl (\<lambda>xs l. if snd l = s then sockets_delete (fst l) xs else xs) xs ls
     = filter (\<lambda>kv. (fst kv, s) \<notin> set ls) xs"
proof (induction ls arbitrary: xs)
  case Nil
  show ?case by simp
next
  case (Cons l ls)
  show ?case
    by (cases l) (auto simp add: Cons sockets_delete_def intro: filter_cong)
qed

lemma registryInv_init: "registryInv createTerminateServer"
  by (simp add: registryInv_def createTerminateServer_def)

lemma close_filter_by_socket:
  assumes "registryInv r"
  shows "filter (\<lambda>kv. (fst kv, s) \<notin> set (closeListeners r)) (sockets r)
           = filter (\<lambda>kv. snd kv \<noteq> s) (sockets r)"
proof (rule filter_cong [OF refl])
  fix kv assume kv: "kv \<in> set (sockets r)"
  obtain i s' where p: "kv = (i, s')" by (cases kv)
  from assms kv p have l: "(i, s') \<in> set (closeListeners r)" and d: "distinct (map fst (closeListeners r))"
    by (auto simp: registryInv_def)
  have "(i, s) \<in> set (closeListeners r) \<longleftrightarrow> s = s'"
    using eq_key_imp_eq_value [OF d] l by blast
  then show "((fst kv, s) \<notin> set (closeListeners r)) = (snd kv \<noteq> s)"
    by (auto simp: p)
qed

lemma registryStep_sockets:
  assumes "registryInv r"
  shows "map snd (sockets (registryStep r ev)) = openStep (map snd (sockets r)) ev"
proof (cases ev)
  case (Connection s)
  have "\<forall>x\<in>set (sockets r). fst x < socketCount r"
    using assms by (auto simp: registryInv_def)
  then show ?thesis
    by (simp add: Connection registryStep_def openStep_def Let_def sockets_set_fresh)
next
  case (SocketClose s)
  show ?thesis
    by (simp add: SocketClose registryStep_def openStep_def close_listeners_filter
          close_filter_by_socket [OF assms] filter_map comp_def)
next
  case ServerCloseCallback
  then show ?thesis by (simp add: registryStep_def openStep_def)
qed

lemma registryStep_inv:
  assumes "registryInv r"
  shows "registryInv (registryStep r ev)"
proof (cases ev)
  case (Connection s)
  have fresh: "\<forall>x\<in>set (sockets r). fst x < socketCount r"
    using assms by (auto simp: registryInv_def)
  show ?thesis
    using assms
    by (auto simp add: Connection registryStep_def Let_def sockets_set_fresh [OF fresh] registryInv_def
          less_Suc_eq)
next
  case (SocketClose s)
  show ?thesis
    using assms
    by (auto simp add: SocketClose registryStep_def close_listeners_filter registryInv_def)
next
  case ServerCloseCallback
  then show ?thesis using assms by (simp add: registryStep_def registryInv_def)
qed

lemma registry_run_from:
  "registryInv r \<Longrightarrow>
     registryInv (foldl registryStep r evs)
     \<and> map snd (sockets (foldl registryStep r evs)) = foldl openStep (map snd (sockets r)) evs"
proof (induction evs rule: rev_induct)
  case Nil
  then show ?case by simp
next
  case (snoc ev evs)
  then show ?case
    by (simp add: registryStep_inv registryStep_sockets)
qed

lemma registry_run:
  "registryInv (foldl registryStep createTerminateServer evs)
   \<and> map snd (sockets (foldl registryStep createTerminateServer evs)) = openSockets evs"
  using registry_run_from [OF registryInv_init, of evs]
  by (simp add: openSockets_def) (simp add: createTerminateServer_def)

lemma terminateServer_inv:
  "registryInv r \<Longrightarrow> registryInv (fst (terminateServer r))"
  by (simp add: terminateServer_def registryInv_def)

lemma terminateResult_step:
  "terminateResult r = Some p \<Longrightarrow>
     terminateResult (registryStep r ev) = Some (if ev = ServerCloseCallback then resolve () p else p)"
  by (cases ev) (simp_all add: registryStep_def Let_def)

lemma terminateResult_run:
  "terminateResult r = Some Pending \<Longrightarrow>
     terminateResult (foldl registryStep r evs)
       = Some (if ServerCloseCallback \<in> set evs then Fulfilled () else Pending)"
proof (induction evs rule: rev_induct)
  case Nil
  then show ?case by simp
next
  case (snoc ev evs)
  then show ?case
    by (auto simp add: terminateResult_step resolve_def)
qed

text \<open>
  Claim C7. After any sequence of connections and socket closes, the terminate routine
  closes the server and destroys exactly the sockets that are open, in the order of their
  ids; the promise it returns is pending, and after any further events it is settled
  exactly if the close callback of the server is among them. Each later \<^verbatim>\<open>close\<close> event of a
  socket takes that socket, and no other, out of the table.
\<close>

theorem terminate_destroys_open_sockets:
  "snd (terminateServer (foldl registryStep createTerminateServer evs))
     = CloseServer # map Destroy (openSockets evs)
   \<and> terminateResult (fst (terminateServer (foldl registryStep createTerminateServer evs))) = Some Pending
   \<and> terminateResult (foldl registryStep
        (fst (terminateServer (foldl registryStep createTerminateServer evs))) later)
       = Some (if ServerCloseCallback \<in> set later then Fulfilled () else Pending)
   \<and> map snd (sockets (foldl registryStep
        (fst (terminateServer (foldl registryStep createTerminateServer evs))) later))
       = foldl openStep (openSockets evs) later"
proof -
  let ?r = "foldl registryStep createTerminateServer evs"
  have run: "registryInv ?r" "map snd (sockets ?r) = openSockets evs"
    using registry_run [of evs] by simp_all
  have "map (Destroy \<circ> snd) (sockets ?r) = map Destroy (map snd (sockets ?r))"
    by simp
  then have destroyed: "snd (terminateServer ?r) = CloseServer # map Destroy (openSockets evs)"
    by (simp only: run(2)) (simp add: terminateServer_def)
  have "map snd (sockets (fst (terminateServer ?r))) = openSockets evs"
    using run(2) by (simp add: terminateServer_def)
  then have tracked: "map snd (sockets (foldl registryStep (fst (terminateServer ?r)) later))
                 = foldl openStep (openSockets evs) later"
    using registry_run_from [OF terminateServer_inv [OF run(1)], of later] by simp
  have pending: "terminateResult (fst (terminateServer ?r)) = Some Pending"
    by (simp add: terminateServer_def)
  from destroyed tracked pending terminateResult_run [OF pending, of later] show ?thesis
    by simp
qed

theorem terminate_destroys_open_sockets_witness:
  "snd (terminateServer (foldl registryStep createTerminateServer
          [Connection 10, Connection 11, Connection 12, SocketClose 11]))
     = [CloseServer, Destroy 10, Destroy 12]
   \<and> terminateResult (foldl registryStep
        (fst (terminateServer (foldl registryStep createTerminateServer
           [Connection 10, Connection 11, Connection 12, SocketClose 11])))
        [SocketClose 10, SocketClose 12])
       = Some Pending
   \<and> terminateResult (foldl registryStep
        (fst (terminateServer (foldl registryStep createTerminateServer
           [Connection 10, Connection 11, Connection 12, SocketClose 11])))
        [SocketClose 10, SocketClose 12, ServerCloseCallback])
       = Some (Fulfilled ())
   \<and> sockets (foldl registryStep
        (fst (terminateServer (foldl registryStep createTerminateServer
           [Connection 10, Connection 11, Connection 12, SocketClose 11])))
        [SocketClose 10])
       = [(2, 12)]"
  using terminate_destroys_open_sockets [of "[Connection 10, Connection 11, Connection 12, SocketClose 11]"
          "[SocketClose 10, SocketClose 12]"]
        terminate_destroys_open_sockets [of "[Connection 10, Connection 11, Connection 12, SocketClose 11]"
          "[SocketClose 10, SocketClose 12, ServerCloseCallback]"]
  by (simp add: openSockets_def openStep_def)
     (simp add: terminateServer_def registryStep_def createTerminateServer_def sockets_set_def
        sockets_delete_def)

section \<open>The port recovered from the \<^verbatim>\<open>Host\<close> header\<close>

lemma matchHostPort_form:
  assumes "h \<noteq> []" "CHR '':'' \<notin> set h" "ds \<noteq> []" "list_all isDigit ds"
  shows "matchHostPort (h @ CHR '':'' # ds) = Some ds"
proof -
  have "takeWhile (\<lambda>c. c \<noteq> CHR '':'') (h @ CHR '':'' # ds) = h"
    using assms(2) by (induction h) auto
  moreover have "dropWhile (\<lambda>c. c \<noteq> CHR '':'') (h @ CHR '':'' # ds) = CHR '':'' # ds"
    using assms(2) by (induction h) auto
  ultimately show ?thesis
    using assms by (simp add: matchHostPort_def)
qed

lemma matchHostPort_Some:
  assumes "matchHostPort s = Some ds"
  shows "\<exists>h. s = h @ CHR '':'' # ds \<and> h \<noteq> [] \<and> CHR '':'' \<notin> set h \<and> ds \<noteq> [] \<and> list_all isDigit ds"
proof -
  let ?P = "\<lambda>c. c \<noteq> CHR '':''"
  from assms obtain c where rest: "dropWhile ?P s = c # ds"
    and ok: "takeWhile ?P s \<noteq> []" "ds \<noteq> []" "list_all isDigit ds"
    by (auto simp add: matchHostPort_def Let_def split: list.splits if_splits)
  have "\<not> ?P (hd (dropWhile ?P s))"
    by (rule hd_dropWhile) (simp add: rest)
  then have c: "c = CHR '':''" by (simp add: rest)
  have "s = takeWhile ?P s @ dropWhile ?P s" by simp
  then have "s = takeWhile ?P s @ CHR '':'' # ds" by (simp only: rest c)
  moreover have "CHR '':'' \<notin> set (takeWhile ?P s)"
    by (auto dest: set_takeWhileD)
  ultimately show ?thesis using ok by blast
qed

lemma matchHostPort_None:
  assumes "\<not> (\<exists>h ds. s = h @ CHR '':'' # ds \<and> h \<noteq> [] \<and> CHR '':'' \<notin> set h \<and> ds \<noteq> [] \<and> list_all isDigit ds)"
  shows "matchHostPort s = None"
proof (cases "matchHostPort s")
  case None
  then show ?thesis .
next
  case (Some ds)
  from matchHostPort_Some [OF Some] assms show ?thesis by blast
qed

text \<open>Decimal digits.\<close>

lemma digitChar_isDigit: "d < 10 \<Longrightarrow> isDigit (digitChar d) \<and> digitVal (digitChar d) = d"
proof -
  have "\<forall>d\<in>set [0..<10]. isDigit (digitChar d) \<and> digitVal (digitChar d) = d"
    by code_simp
  then show "d < 10 \<Longrightarrow> isDigit (digitChar d) \<and> digitVal (digitChar d) = d" by simp
qed

lemma showNat_digits: "list_all isDigit (showNat n) \<and> showNat n \<noteq> []"
proof (induction n rule: showNat.induct)
  case (1 n)
  show ?case
  proof (cases "n < 10")
    case True
    then show ?thesis by (subst showNat.simps, subst showNat.simps) (simp add: digitChar_isDigit)
  next
    case False
    with 1 have "list_all isDigit (showNat (n div 10))" by simp
    moreover have "isDigit (digitChar (n mod 10))" by (simp add: digitChar_isDigit)
    ultimately show ?thesis using False
      by (subst showNat.simps, subst showNat.simps) simp
  qed
qed

lemma decimalValue_snoc: "decimalValue (ds @ [c]) = 10 * decimalValue ds + digitVal c"
  by (simp add: decimalValue_def)

lemma decimalValue_showNat: "decimalValue (showNat n) = n"
proof (induction n rule: showNat.induct)
  case (1 n)
  show ?case
  proof (cases "n < 10")
    case True
    then show ?thesis
      by (subst showNat.simps) (simp add: decimalValue_def digitChar_isDigit)
  next
    case False
    with 1 have "decimalValue (showNat (n div 10)) = n div 10" by simp
    then show ?thesis using False
      by (subst showNat.simps) (simp add: decimalValue_snoc digitChar_isDigit)
  qed
qed

lemma showNat_times_10: "0 < s \<Longrightarrow> showNat (s * 10) = showNat s @ ''0''"
  by (subst showNat.simps) (simp add: digitChar_def)

lemma showNat_times_power: "0 < s \<Longrightarrow> showNat (s * 10 ^ e) = showNat s @ replicate e CHR ''0''"
proof (induction e)
  case 0
  then show ?case by simp
next
  case (Suc e)
  have "s * 10 ^ Suc e = (s * 10 ^ e) * 10" by simp
  then have "showNat (s * 10 ^ Suc e) = showNat ((s * 10 ^ e) * 10)" by (rule arg_cong)
  also have "\<dots> = showNat (s * 10 ^ e) @ ''0''" using Suc(2) by (intro showNat_times_10) simp
  also have "\<dots> = showNat s @ replicate (Suc e) CHR ''0''"
    using Suc by (simp add: replicate_append_same)
  finally show ?case .
qed

lemma length_showNat: "n < 10 ^ Suc k \<Longrightarrow> length (showNat n) \<le> Suc k"
proof (induction k arbitrary: n)
  case 0
  then show ?case by (subst showNat.simps) simp
next
  case (Suc k)
  show ?case
  proof (cases "n < 10")
    case True
    then show ?thesis by (subst showNat.simps) simp
  next
    case False
    have "n div 10 < 10 ^ Suc k" using Suc(2) by (simp add: less_mult_imp_div_less)
    then have "length (showNat (n div 10)) \<le> Suc k" by (rule Suc(1))
    then show ?thesis using False by (subst showNat.simps) simp
  qed
qed

lemma isDigit_not_special: "isDigit c \<Longrightarrow> c \<noteq> CHR ''&'' \<and> c \<noteq> CHR '','' \<and> c \<noteq> CHR ''=''"
  by (auto simp: isDigit_def)

lemma showNat_no_special: "CHR ''&'' \<notin> set (showNat n)" "CHR '','' \<notin> set (showNat n)"
  using showNat_digits [of n] isDigit_not_special by (auto simp: list_all_iff)

text \<open>Doubles: below \<open>2 ^ 53\<close> nothing is rounded and the number is written in full.\<close>

lemma bitLength_bounds: "0 < n \<Longrightarrow> 2 ^ (bitLength n - 1) \<le> n \<and> n < 2 ^ bitLength n"
proof (induction n rule: bitLength.induct)
  case (1 n)
  show ?case
  proof (cases "n div 2 = 0")
    case True
    with 1(2) have "n = 1" by (simp add: div_eq_0_iff)
    then show ?thesis
      by (simp add: bitLength.simps [of "Suc 0"] bitLength.simps [of 0])
  next
    case False
    with 1 have ih: "2 ^ (bitLength (n div 2) - 1) \<le> n div 2" "n div 2 < 2 ^ bitLength (n div 2)"
      by simp_all
    have pos: "0 < bitLength (n div 2)"
      using False by (simp add: bitLength.simps [of "n div 2"])
    have bl: "bitLength n = Suc (bitLength (n div 2))"
      using 1(2) by (simp add: bitLength.simps [of n])
    have "(2::nat) ^ (bitLength n - 1) = 2 * 2 ^ (bitLength (n div 2) - 1)"
      using pos bl by (cases "bitLength (n div 2)") simp_all
    also have "\<dots> \<le> 2 * (n div 2)" using ih(1) by simp
    also have "\<dots> \<le> n" by simp
    finally have lower: "2 ^ (bitLength n - 1) \<le> n" .
    have "n < 2 * (n div 2) + 2" by presburger
    also have "\<dots> \<le> 2 * 2 ^ bitLength (n div 2)" using ih(2) by simp
    finally have "n < 2 ^ bitLength n" by (simp add: bl)
    with lower show ?thesis by simp
  qed
qed

lemma toDouble_small: "n < 2 ^ 53 \<Longrightarrow> toDouble n = Finite n"
  by (simp add: toDouble_def)

lemma toDouble_large:
  assumes "2 ^ 53 \<le> m" "toDouble m = Finite v"
  shows "2 ^ 53 \<le> v"
proof -
  define e where "e = bitLength m - 53"
  define q where "q = m div 2 ^ e"
  have mpos: "0 < m" using assms(1) by (simp add: less_le_trans [of 0 "2 ^ 53" m])
  from bitLength_bounds [OF mpos] have lower: "2 ^ (bitLength m - 1) \<le> m" and upper: "m < 2 ^ bitLength m"
    by simp_all
  have "(2::nat) ^ 53 < 2 ^ bitLength m" using assms(1) upper by simp
  then have L: "53 < bitLength m" by (rule power_less_imp_less_exp [rotated]) simp
  then have split: "bitLength m - 1 = 52 + e" by (simp add: e_def)
  have pw: "(2::nat) ^ (bitLength m - 1) = 2 ^ 52 * 2 ^ e" by (simp only: split power_add)
  have "(2::nat) ^ 52 * 2 ^ e \<le> m" using lower by (simp only: pw)
  then have q52: "2 ^ 52 \<le> q"
    unfolding q_def by (simp add: less_eq_div_iff_mult_less_eq)
  have epos: "1 \<le> e" using L by (simp add: e_def)
  then have e2: "(2::nat) \<le> 2 ^ e"
    using power_increasing [of 1 e "2::nat"] by simp
  have "(2::nat) ^ 52 * 2 \<le> q * 2 ^ e"
    using q52 e2 by (rule mult_le_mono)
  then have base: "2 ^ 53 \<le> q * 2 ^ e" by simp
  then have base': "2 ^ 53 \<le> (q + 1) * 2 ^ e" by (simp add: add_mult_distrib)
  from assms show ?thesis
    using base base'
    by (auto simp add: toDouble_def Let_def e_def [symmetric] q_def [symmetric] split: if_splits)
qed

lemma toDouble_eq_small:
  assumes "x < 2 ^ 53"
  shows "toDouble m = Finite x \<longleftrightarrow> m = x"
proof (cases "m < 2 ^ 53")
  case True
  then show ?thesis by (simp add: toDouble_small)
next
  case False
  then have "toDouble m \<noteq> Finite x"
    using toDouble_large [of m x] assms by auto
  moreover have "m \<noteq> x" using False assms by auto
  ultimately show ?thesis by simp
qed

lemma shortest_exact:
  assumes "x < 2 ^ 53"
  shows "shortest x e0 = (s, e) \<Longrightarrow> s * 10 ^ e = x"
proof (induction e0)
  case 0
  then show ?case by simp
next
  case (Suc e0)
  then show ?case
    by (auto simp add: Let_def toDouble_eq_small [OF assms] simp del: power_Suc split: if_splits)
qed

lemma numberToString_small:
  assumes "n < 2 ^ 53"
  shows "numberToString (Finite n) = showNat n"
proof (cases "n = 0")
  case True
  then show ?thesis
    by (simp add: numberToString_def showNat.simps [of 0] digitChar_def)
next
  case False
  obtain s e where se: "shortest n (length (showNat n)) = (s, e)" by (cases "shortest n (length (showNat n))")
  from shortest_exact [OF assms se] have prod: "s * 10 ^ e = n" .
  with False have spos: "0 < s" by (cases s) auto
  have str: "showNat n = showNat s @ replicate e CHR ''0''"
    using showNat_times_power [OF spos, of e] prod by simp
  have "n < 10 ^ Suc 20" using assms by (simp add: less_trans [of n "2 ^ 53"])
  then have "length (showNat n) \<le> 21" using length_showNat [of n 20] by simp
  then have "length (showNat s) + e \<le> 21" by (simp add: str)
  then have "formatDigits s e = showNat n"
    by (simp add: formatDigits_def Let_def str)
  then show ?thesis
    using False by (simp add: numberToString_def se)
qed

lemma mantissa_no_amp:
  "CHR ''&'' \<notin> set ds \<Longrightarrow>
     CHR ''&'' \<notin> set (case ds of [] \<Rightarrow> [] | [d] \<Rightarrow> [d] | d # ds' \<Rightarrow> d # CHR ''.'' # ds')"
  by (cases ds rule: list.exhaust [case_names Nil Cons]) (auto split: list.splits)

lemma formatDigits_no_amp: "CHR ''&'' \<notin> set (formatDigits s e)"
  using mantissa_no_amp [OF showNat_no_special(1) [of s]]
  by (simp add: formatDigits_def Let_def showNat_no_special)

lemma numberToString_no_amp: "CHR ''&'' \<notin> set (numberToString p)"
  by (cases p) (simp_all add: numberToString_def formatDigits_no_amp split: prod.splits)

text \<open>Rules to compute with numerals.\<close>

lemma bitLength_numeral:
  "bitLength 0 = 0"
  "bitLength (Suc 0) = Suc 0"
  "bitLength (numeral k) = Suc (bitLength (numeral k div 2))"
  by (simp_all add: bitLength.simps [of 0] bitLength.simps [of "Suc 0"] bitLength.simps [of "numeral k"])

lemma showNat_numeral:
  "showNat (numeral k) =
     (if numeral k < (10::nat) then [digitChar (numeral k)]
      else showNat (numeral k div 10) @ [digitChar (numeral k mod 10)])"
  "showNat 0 = ''0''" "showNat (Suc 0) = ''1''"
  by (simp_all add: showNat.simps [of "numeral k"] showNat.simps [of 0] showNat.simps [of "Suc 0"] digitChar_def)

lemma queryParam_fourth:
  assumes "CHR ''&'' \<notin> set p1" "CHR ''&'' \<notin> set p2" "CHR ''&'' \<notin> set p3"
      and "CHR ''&'' \<notin> set name" "CHR ''&'' \<notin> set v"
      and "take (length name + 1) p1 \<noteq> name @ ''=''"
      and "take (length name + 1) p2 \<noteq> name @ ''=''"
      and "take (length name + 1) p3 \<noteq> name @ ''=''"
  shows "queryParam name (p1 @ CHR ''&'' # p2 @ CHR ''&'' # p3 @ CHR ''&'' # (name @ ''='' @ v) @ CHR ''&'' # rest)
           = Some v"
proof -
  have nv: "CHR ''&'' \<notin> set (name @ ''='' @ v)"
    using assms(4,5) by simp
  have "split_str CHR ''&'' (p1 @ CHR ''&'' # p2 @ CHR ''&'' # p3 @ CHR ''&'' # (name @ ''='' @ v) @ CHR ''&'' # rest)
          = p1 # p2 # p3 # (name @ ''='' @ v) # split_str CHR ''&'' rest"
    by (simp only: split_str_append [OF assms(1)] split_str_append [OF assms(2)]
          split_str_append [OF assms(3)] split_str_append [OF nv])
  then show ?thesis
    using assms(6,7,8) by (simp add: queryParam_def)
qed

lemma login_query_state_parts:
  "login_query clientId environment redirectUrl state =
     ''response_type=code'' @ CHR ''&'' # (''client_id='' @ encodeURIComponent clientId) @ CHR ''&''
       # (''redirect_uri='' @ encodeURIComponent redirectUrl) @ CHR ''&''
       # (''state'' @ ''='' @ state) @ CHR ''&''
       # (''resource='' @ encodeURIComponent (activeDirectoryResourceId environment) @ ''&prompt=select_account'')"
  by (simp add: login_query_def)

lemma login_state_no_amp: "CHR ''&'' \<notin> set (login_state p nonce)"
  by (simp add: login_state_def numberToString_no_amp encodeURIComponent_no_special)

lemma queryParam_state:
  "queryParam ''state'' (login_query clientId environment redirectUrl (login_state p nonce))
     = Some (numberToString p @ '','' @ encodeURIComponent nonce)"
proof -
  have "queryParam ''state'' (login_query clientId environment redirectUrl (login_state p nonce))
          = Some (login_state p nonce)"
    unfolding login_query_state_parts
    by (rule queryParam_fourth) (simp_all add: encodeURIComponent_no_special login_state_no_amp)
  then show ?thesis by (simp add: login_state_def)
qed

lemma login_redirect_written:
  fixes tokenRes :: "jsError + 'tok"
  shows "WriteHead res 302
       [(''Location'', login_signInUrl clientId environment adfs tenantId
                         (if adfs then redirectUrlADFS else redirectUrlAAD)
                         (login_state (updatedPort (req_host req) port) nonce))]
     \<in> set (fst (login clientId environment adfs tenantId nonce (Fulfilled port) None
                    (Fulfilled (RedirectReq req res)) codeRes tokenRes))"
  by (simp add: login_def Let_def split: promise.splits codeResult.splits sum.splits)

text \<open>The values at the inputs of the example below.\<close>

lemma witness_digits:
  "list_all isDigit ''8080''"
  "decimalValue ''8080'' = 8080"
  "showNat 8080 = ''8080''"
  "list_all isDigit ''9007199254740993''"
  "decimalValue ''9007199254740993'' = 9007199254740993"
  "showNat 9007199254740992 = ''9007199254740992''"
  by (simp_all add: isDigit_def decimalValue_def digitVal_def showNat_numeral digitChar_def)

lemma witness_match:
  "matchHostPort ''localhost:8080'' = Some ''8080''"
  "matchHostPort ''[::1]:8080'' = None"
  by (simp_all add: matchHostPort_def isDigit_def)

lemma witness_rounded: "toDouble 9007199254740993 = Finite 9007199254740992"
  by (simp add: toDouble_def Let_def bitLength_numeral)

lemma witness_shortest:
  "shortest 9007199254740992 (length ''9007199254740992'') = (9007199254740992, 0)"
  by (simp add: toDouble_def Let_def bitLength_numeral)

lemma witness_rounded_string: "numberToString (Finite 9007199254740992) = ''9007199254740992''"
proof -
  have "numberToString (Finite 9007199254740992)
          = (case shortest 9007199254740992 (length (showNat 9007199254740992)) of
               (s, e) \<Rightarrow> formatDigits s e)"
    by (simp add: numberToString_def del: shortest.simps)
  also have "\<dots> = formatDigits 9007199254740992 0"
    by (simp only: witness_digits(6) witness_shortest prod.case)
  also have "\<dots> = ''9007199254740992''"
    by (simp add: formatDigits_def witness_digits(6))
  finally show ?thesis .
qed

lemma witness_ports:
  "updatedPort (HeaderStr ''localhost:8080'') 51234 = Finite 8080"
  by (simp add: updatedPort_def hostString_def witness_match parseInt10_def witness_digits toDouble_small)

lemma witness_encoded:
  "encodeURIComponent ''client'' = ''client''"
  "encodeURIComponent ''https://vscode-redirect.azurewebsites.net/''
     = ''https%3A%2F%2Fvscode-redirect.azurewebsites.net%2F''"
  "encodeURIComponent ''https://res.example/'' = ''https%3A%2F%2Fres.example%2F''"
  by code_simp+

lemma witness_query:
  "login_query ''client'' \<lparr> activeDirectoryEndpointUrl = ''https://login.example/'',
                            activeDirectoryResourceId = ''https://res.example/'' \<rparr>
       redirectUrlAAD (login_state (Finite 8080) ''abc='')
     = ''response_type=code&client_id=client&redirect_uri=https%3A%2F%2Fvscode-redirect.azurewebsites.net%2F&state=8080,abc%3D&resource=https%3A%2F%2Fres.example%2F&prompt=select_account''"
  by (simp add: login_query_def login_state_def redirectUrlAAD_def witness_encoded witness_digits enc_abc
        numberToString_small)

text \<open>
  Claim C9. Once the redirect promise is fulfilled with a request, \<^verbatim>\<open>login\<close> answers it with
  a 302 to the sign-in URL, whose \<^verbatim>\<open>state\<close> parameter is the recovered port as JavaScript
  writes the number, a comma and the URL-encoded nonce. The recovered port is the number
  \<^verbatim>\<open>parseInt\<close> reads after the colon when the \<^verbatim>\<open>Host\<close> header is a non-empty colon-free
  name, a colon and one or more digits; it is the bound port when the header is absent
  or not of that form. A number below \<open>2 ^ 53\<close> is read exactly and written in decimal.
\<close>

theorem login_rebuilds_state:
  fixes tokenRes :: "jsError + 'tok"
  shows "WriteHead res 302
       [(''Location'', activeDirectoryEndpointUrl environment @ (if adfs then [] else tenantId @ ''/'')
                       @ ''oauth2/authorize?''
                       @ login_query clientId environment (if adfs then redirectUrlADFS else redirectUrlAAD)
                           (login_state (updatedPort (req_host req) port) nonce))]
     \<in> set (fst (login clientId environment adfs tenantId nonce (Fulfilled port) None
                    (Fulfilled (RedirectReq req res)) codeRes tokenRes))
   \<and> queryParam ''state'' (login_query clientId environment redirectUrl
                            (login_state (updatedPort hdr port) nonce))
       = Some (numberToString (updatedPort hdr port) @ '','' @ encodeURIComponent nonce)
   \<and> (h \<noteq> [] \<and> CHR '':'' \<notin> set h \<and> ds \<noteq> [] \<and> list_all isDigit ds
        \<longrightarrow> updatedPort (HeaderStr (h @ CHR '':'' # ds)) port = toDouble (decimalValue ds))
   \<and> updatedPort HeaderAbsent port = toDouble port
   \<and> (\<not> (\<exists>h ds. s = h @ CHR '':'' # ds \<and> h \<noteq> [] \<and> CHR '':'' \<notin> set h \<and> ds \<noteq> [] \<and> list_all isDigit ds)
        \<longrightarrow> updatedPort (HeaderStr s) port = toDouble port)
   \<and> (n < 2 ^ 53 \<longrightarrow> toDouble n = Finite n \<and> numberToString (Finite n) = showNat n)
   \<and> decimalValue (showNat n) = n"
proof (intro conjI impI)
  show "WriteHead res 302
       [(''Location'', activeDirectoryEndpointUrl environment @ (if adfs then [] else tenantId @ ''/'')
                       @ ''oauth2/authorize?''
                       @ login_query clientId environment (if adfs then redirectUrlADFS else redirectUrlAAD)
                           (login_state (updatedPort (req_host req) port) nonce))]
     \<in> set (fst (login clientId environment adfs tenantId nonce (Fulfilled port) None
                    (Fulfilled (RedirectReq req res)) codeRes tokenRes))"
    using login_redirect_written [of res clientId environment adfs tenantId req port nonce codeRes tokenRes]
    unfolding login_signInUrl_def .
next
  show "queryParam ''state'' (login_query clientId environment redirectUrl
                            (login_state (updatedPort hdr port) nonce))
       = Some (numberToString (updatedPort hdr port) @ '','' @ encodeURIComponent nonce)"
    by (rule queryParam_state)
next
  assume "h \<noteq> [] \<and> CHR '':'' \<notin> set h \<and> ds \<noteq> [] \<and> list_all isDigit ds"
  then show "updatedPort (HeaderStr (h @ CHR '':'' # ds)) port = toDouble (decimalValue ds)"
    by (simp add: updatedPort_def hostString_def matchHostPort_form parseInt10_def)
next
  show "updatedPort HeaderAbsent port = toDouble port"
    by (simp add: updatedPort_def hostString_def matchHostPort_def)
next
  assume "\<not> (\<exists>h ds. s = h @ CHR '':'' # ds \<and> h \<noteq> [] \<and> CHR '':'' \<notin> set h \<and> ds \<noteq> [] \<and> list_all isDigit ds)"
  then show "updatedPort (HeaderStr s) port = toDouble port"
    by (simp add: updatedPort_def hostString_def matchHostPort_None)
next
  assume "n < 2 ^ 53"
  then show "toDouble n = Finite n" by (rule toDouble_small)
next
  assume "n < 2 ^ 53"
  then show "numberToString (Finite n) = showNat n" by (rule numberToString_small)
next
  show "decimalValue (showNat n) = n" by (rule decimalValue_showNat)
qed

theorem login_rebuilds_state_witness:
  "WriteHead 7 302
       [(''Location'', ''https://login.example/common/oauth2/authorize?response_type=code&client_id=client&redirect_uri=https%3A%2F%2Fvscode-redirect.azurewebsites.net%2F&state=8080,abc%3D&resource=https%3A%2F%2Fres.example%2F&prompt=select_account'')]
     \<in> set (fst (login ''client'' \<lparr> activeDirectoryEndpointUrl = ''https://login.example/'',
                                    activeDirectoryResourceId = ''https://res.example/'' \<rparr>
                    False ''common'' ''abc='' (Fulfilled 51234) None
                    (Fulfilled (RedirectReq \<lparr> req_pathname = Some ''/signin'',
                                             req_query = [''nonce'' \<mapsto> QStr ''abc=''],
                                             req_host = HeaderStr ''localhost:8080'' \<rparr> 7))
                    Pending (Inl (Error ''unused'') :: jsError + unit)))
   \<and> updatedPort (HeaderStr ''localhost:8080'') 51234 = Finite 8080
   \<and> updatedPort HeaderAbsent 51234 = Finite 51234
   \<and> updatedPort (HeaderStr ''[::1]:8080'') 51234 = Finite 51234
   \<and> updatedPort (HeaderStr ''h:9007199254740993'') 51234 = Finite 9007199254740992
   \<and> login_state (Finite 9007199254740992) ''abc='' = ''9007199254740992,abc%3D''"
proof -
  have nodec: "\<not> (\<exists>h ds. ''[::1]:8080'' = h @ CHR '':'' # ds \<and> h \<noteq> [] \<and> CHR '':'' \<notin> set h
                     \<and> ds \<noteq> [] \<and> list_all isDigit ds)"
    using matchHostPort_form witness_match(2) by (metis option.distinct(1))
  note t = login_rebuilds_state [where res = 7 and clientId = "''client''"
      and environment = "\<lparr> activeDirectoryEndpointUrl = ''https://login.example/'',
                            activeDirectoryResourceId = ''https://res.example/'' \<rparr>"
      and adfs = False and tenantId = "''common''" and nonce = "''abc=''" and port = 51234
      and req = "\<lparr> req_pathname = Some ''/signin'', req_query = [''nonce'' \<mapsto> QStr ''abc=''],
                    req_host = HeaderStr ''localhost:8080'' \<rparr>"
      and codeRes = Pending and tokenRes = "Inl (Error ''unused'') :: jsError + unit"
      and h = "''h''" and ds = "''9007199254740993''" and s = "''[::1]:8080''"
      and redirectUrl = redirectUrlAAD and hdr = "HeaderStr ''localhost:8080''" and n = 51234]
  have small: "toDouble 51234 = Finite 51234"
    using t [THEN conjunct2, THEN conjunct2, THEN conjunct2, THEN conjunct2, THEN conjunct2, THEN conjunct1]
    by simp
  have a: "WriteHead 7 302
       [(''Location'', ''https://login.example/common/oauth2/authorize?response_type=code&client_id=client&redirect_uri=https%3A%2F%2Fvscode-redirect.azurewebsites.net%2F&state=8080,abc%3D&resource=https%3A%2F%2Fres.example%2F&prompt=select_account'')]
     \<in> set (fst (login ''client'' \<lparr> activeDirectoryEndpointUrl = ''https://login.example/'',
                                    activeDirectoryResourceId = ''https://res.example/'' \<rparr>
                    False ''common'' ''abc='' (Fulfilled 51234) None
                    (Fulfilled (RedirectReq \<lparr> req_pathname = Some ''/signin'',
                                             req_query = [''nonce'' \<mapsto> QStr ''abc=''],
                                             req_host = HeaderStr ''localhost:8080'' \<rparr> 7))
                    Pending (Inl (Error ''unused'') :: jsError + unit)))"
    using t [THEN conjunct1] by (simp add: witness_ports witness_query)
  have b: "updatedPort (HeaderStr ''[::1]:8080'') 51234 = Finite 51234"
    using t [THEN conjunct2, THEN conjunct2, THEN conjunct2, THEN conjunct2, THEN conjunct1] nodec small
    by simp
  have c: "updatedPort HeaderAbsent 51234 = Finite 51234"
    using t [THEN conjunct2, THEN conjunct2, THEN conjunct2, THEN conjunct1] small by simp
  have d: "updatedPort (HeaderStr ''h:9007199254740993'') 51234 = Finite 9007199254740992"
    using t [THEN conjunct2, THEN conjunct2, THEN conjunct1]
    by (simp add: witness_digits witness_rounded isDigit_def)
  have e: "login_state (Finite 9007199254740992) ''abc='' = ''9007199254740992,abc%3D''"
    by (simp add: login_state_def witness_rounded_string enc_abc)
  from a witness_ports c b d e show ?thesis by (intro conjI)
qed

end
